theory Spec2Isabelle
  imports Main "HOL-Library.Sublist"
begin

section \<open>Text\<close>

text \<open>
  The program is the script \<^verbatim>\<open>main.py\<close>: an interactive loop collects the articles
  a user has read, one request to a language-model endpoint turns them into
  recommendations, and the recommendations are printed.

  A Python \<^verbatim>\<open>str\<close> is modelled as \<^typ>\<open>string\<close>, holding the UTF-8 bytes of the text.
  Equality, concatenation, \<^verbatim>\<open>join\<close> and \<^verbatim>\<open>split\<close> on an ASCII separator read the
  same on bytes as on code points, since no byte of a multi-byte UTF-8 sequence is
  ASCII. The literals of the source that are not ASCII are written out byte by byte.
\<close>

text \<open>
  \<^verbatim>\<open>str.lower()\<close>. The letters A to Z go to a to z. Python also maps letters outside
  ASCII; the only ones whose lower case holds an ASCII letter are U+0130 (to
  \<^verbatim>\<open>i\<close> and a combining dot) and U+212A (to \<^verbatim>\<open>k\<close>), and neither letter occurs in
  \<^verbatim>\<open>done\<close>. The bytes of every other character stay outside ASCII, so the model
  leaves them as they are: the source only compares the result with \<^verbatim>\<open>"done"\<close>, and
  that comparison comes out the same.
\<close>

definition lower_char :: "char \<Rightarrow> char" where
  "lower_char c =
     (case map_of (zip ''ABCDEFGHIJKLMNOPQRSTUVWXYZ'' ''abcdefghijklmnopqrstuvwxyz'') c of
        Some l \<Rightarrow> l
      | None \<Rightarrow> c)"

definition lower :: "string \<Rightarrow> string" where
  "lower s = map lower_char s"

text \<open>\<^verbatim>\<open>sep.join(xs)\<close>.\<close>

fun join :: "string \<Rightarrow> string list \<Rightarrow> string" where
  "join sep [] = []"
| "join sep [x] = x"
| "join sep (x # y # ys) = x @ sep @ join sep (y # ys)"

text \<open>
  \<^verbatim>\<open>str(i)\<close> for an integer: its decimal digits, with a minus sign when negative.
\<close>

function digits :: "nat \<Rightarrow> string" where
  "digits n =
     (if n < 10 then [''0123456789'' ! n]
      else digits (n div 10) @ [''0123456789'' ! (n mod 10)])"
  by pat_completeness auto
termination
  by (relation "measure id") auto

declare digits.simps [simp del]

definition str :: "int \<Rightarrow> string" where
  "str i = (if i < 0 then ''-'' @ digits (nat (- i)) else digits (nat i))"

text \<open>
  Exceptions. \<open>Exception msg\<close> is an instance of Python's class \<^verbatim>\<open>Exception\<close> whose
  \<^verbatim>\<open>str(e)\<close> is \<open>msg\<close> (a network failure, a malformed response, \<^verbatim>\<open>EOFError\<close> on a
  closed standard input, ...). \<open>KeyboardInterrupt\<close> derives from \<^verbatim>\<open>BaseException\<close>
  only: \<^verbatim>\<open>except Exception\<close> does not catch it.
\<close>

datatype exn = Exception string | KeyboardInterrupt

text \<open>
  \<^verbatim>\<open>s.split(sep)\<close> with a separator: the text is cut at every occurrence of \<open>sep\<close>,
  found from the left and not overlapping. \<open>split_scan sep cur s\<close> is the scan, with
  \<open>cur\<close> the piece read so far. An empty separator raises \<^verbatim>\<open>ValueError\<close>.
\<close>

function split_scan :: "string \<Rightarrow> string \<Rightarrow> string \<Rightarrow> string list" where
  "split_scan sep cur [] = [cur]"
| "split_scan sep cur (c # cs) =
     (if sep = [] then split_scan sep (cur @ [c]) cs
      else if prefix sep (c # cs) then cur # split_scan sep [] (drop (length sep) (c # cs))
      else split_scan sep (cur @ [c]) cs)"
  by pat_completeness auto
termination
  by (relation "measure (\<lambda>(sep, cur, s). length s)") auto

definition split :: "string \<Rightarrow> string \<Rightarrow> exn + string list" where
  "split s sep =
     (if sep = [] then Inl (Exception ''empty separator'') else Inr (split_scan sep [] s))"

section \<open>The literals of the source\<close>

text \<open>Line 30: the banner \<^verbatim>\<open>collect_history\<close> prints before its loop.\<close>

definition COLLECT_BANNER :: string where
  "COLLECT_BANNER =
     ''[bold blue]'' @
     [CHR 0xE8, CHR 0xAA, CHR 0xAD, CHR 0xE3, CHR 0x82, CHR 0x93, CHR 0xE3, CHR 0x81, CHR 0xA0] @
     [CHR 0xE6, CHR 0x8A, CHR 0x80, CHR 0xE8, CHR 0xA1, CHR 0x93, CHR 0xE8, CHR 0xA8, CHR 0x98] @
     [CHR 0xE4, CHR 0xBA, CHR 0x8B, CHR 0xE3, CHR 0x81, CHR 0xAE, CHR 0xE6, CHR 0x83, CHR 0x85] @
     [CHR 0xE5, CHR 0xA0, CHR 0xB1, CHR 0xE3, CHR 0x82, CHR 0x92, CHR 0xE5, CHR 0x85, CHR 0xA5] @
     [CHR 0xE5, CHR 0x8A, CHR 0x9B, CHR 0xE3, CHR 0x81, CHR 0x97, CHR 0xE3, CHR 0x81, CHR 0xA6] @
     [CHR 0xE3, CHR 0x81, CHR 0x8F, CHR 0xE3, CHR 0x81, CHR 0xA0, CHR 0xE3, CHR 0x81, CHR 0x95] @
     [CHR 0xE3, CHR 0x81, CHR 0x84, CHR 0xEF, CHR 0xBC, CHR 0x88, CHR 0xE7, CHR 0xB5, CHR 0x82] @
     [CHR 0xE4, CHR 0xBA, CHR 0x86, CHR 0xE3, CHR 0x81, CHR 0x99, CHR 0xE3, CHR 0x82, CHR 0x8B] @
     [CHR 0xE3, CHR 0x81, CHR 0xAB, CHR 0xE3, CHR 0x81, CHR 0xAF] @ '' '' @ [CHR 0x27] @
     ''done'' @ [CHR 0x27] @ '' '' @
     [CHR 0xE3, CHR 0x81, CHR 0xA8, CHR 0xE5, CHR 0x85, CHR 0xA5, CHR 0xE5, CHR 0x8A, CHR 0x9B] @
     [CHR 0xEF, CHR 0xBC, CHR 0x89] @ ''[/bold blue]''"

text \<open>Line 32: the prompt text handed to \<^verbatim>\<open>Prompt.ask\<close>.\<close>

definition ASK_PROMPT :: string where
  "ASK_PROMPT =
     [CHR 0xE8, CHR 0xA8, CHR 0x98, CHR 0xE4, CHR 0xBA, CHR 0x8B, CHR 0xE3, CHR 0x81, CHR 0xAE] @
     [CHR 0xE3, CHR 0x82, CHR 0xBF, CHR 0xE3, CHR 0x82, CHR 0xA4, CHR 0xE3, CHR 0x83, CHR 0x88] @
     [CHR 0xE3, CHR 0x83, CHR 0xAB, CHR 0xE3, CHR 0x81, CHR 0xA8, CHR 0xE5, CHR 0x86, CHR 0x85] @
     [CHR 0xE5, CHR 0xAE, CHR 0xB9, CHR 0xE3, CHR 0x81, CHR 0xAE, CHR 0xE8, CHR 0xA6, CHR 0x81] @
     [CHR 0xE7, CHR 0xB4, CHR 0x84]"

text \<open>Lines 43-54: the system message of the prompt template (it has no placeholder).\<close>

definition SYSTEM_TEMPLATE :: string where
  "SYSTEM_TEMPLATE =
     [CHR 0xE3, CHR 0x81, CHR 0x82, CHR 0xE3, CHR 0x81, CHR 0xAA, CHR 0xE3, CHR 0x81, CHR 0x9F] @
     [CHR 0xE3, CHR 0x81, CHR 0xAF, CHR 0xE6, CHR 0x8A, CHR 0x80, CHR 0xE8, CHR 0xA1, CHR 0x93] @
     [CHR 0xE8, CHR 0xA8, CHR 0x98, CHR 0xE4, CHR 0xBA, CHR 0x8B, CHR 0xE3, CHR 0x81, CHR 0xAE] @
     [CHR 0xE6, CHR 0x8E, CHR 0xA8, CHR 0xE8, CHR 0x96, CHR 0xA6, CHR 0xE3, CHR 0x82, CHR 0xA8] @
     [CHR 0xE3, CHR 0x82, CHR 0xAD, CHR 0xE3, CHR 0x82, CHR 0xB9, CHR 0xE3, CHR 0x83, CHR 0x91] @
     [CHR 0xE3, CHR 0x83, CHR 0xBC, CHR 0xE3, CHR 0x83, CHR 0x88, CHR 0xE3, CHR 0x81, CHR 0xA7] @
     [CHR 0xE3, CHR 0x81, CHR 0x99, CHR 0xE3, CHR 0x80, CHR 0x82, CHR 0x0A] @ ''        '' @
     [CHR 0xE3, CHR 0x83, CHR 0xA6, CHR 0xE3, CHR 0x83, CHR 0xBC, CHR 0xE3, CHR 0x82, CHR 0xB6] @
     [CHR 0xE3, CHR 0x83, CHR 0xBC, CHR 0xE3, CHR 0x81, CHR 0x8C, CHR 0xE3, CHR 0x81, CHR 0x93] @
     [CHR 0xE3, CHR 0x82, CHR 0x8C, CHR 0xE3, CHR 0x81, CHR 0xBE, CHR 0xE3, CHR 0x81, CHR 0xA7] @
     [CHR 0xE8, CHR 0xAA, CHR 0xAD, CHR 0xE3, CHR 0x82, CHR 0x93, CHR 0xE3, CHR 0x81, CHR 0xA0] @
     [CHR 0xE6, CHR 0x8A, CHR 0x80, CHR 0xE8, CHR 0xA1, CHR 0x93, CHR 0xE8, CHR 0xA8, CHR 0x98] @
     [CHR 0xE4, CHR 0xBA, CHR 0x8B, CHR 0xE3, CHR 0x81, CHR 0xAE, CHR 0xE6, CHR 0x83, CHR 0x85] @
     [CHR 0xE5, CHR 0xA0, CHR 0xB1, CHR 0xE3, CHR 0x82, CHR 0x92, CHR 0xE5, CHR 0x9F, CHR 0xBA] @
     [CHR 0xE3, CHR 0x81, CHR 0xAB, CHR 0xE3, CHR 0x80, CHR 0x81, CHR 0xE9, CHR 0x96, CHR 0xA2] @
     [CHR 0xE9, CHR 0x80, CHR 0xA3, CHR 0xE6, CHR 0x80, CHR 0xA7, CHR 0xE3, CHR 0x81, CHR 0xAE] @
     [CHR 0xE9, CHR 0xAB, CHR 0x98, CHR 0xE3, CHR 0x81, CHR 0x84, CHR 0xE6, CHR 0x96, CHR 0xB0] @
     [CHR 0xE3, CHR 0x81, CHR 0x97, CHR 0xE3, CHR 0x81, CHR 0x84, CHR 0xE6, CHR 0x8A, CHR 0x80] @
     [CHR 0xE8, CHR 0xA1, CHR 0x93, CHR 0xE8, CHR 0xA8, CHR 0x98, CHR 0xE4, CHR 0xBA, CHR 0x8B] @
     [CHR 0xE3, CHR 0x82, CHR 0x92, CHR 0xE6, CHR 0x8E, CHR 0xA8, CHR 0xE8, CHR 0x96, CHR 0xA6] @
     [CHR 0xE3, CHR 0x81, CHR 0x97, CHR 0xE3, CHR 0x81, CHR 0xA6, CHR 0xE3, CHR 0x81, CHR 0x8F] @
     [CHR 0xE3, CHR 0x81, CHR 0xA0, CHR 0xE3, CHR 0x81, CHR 0x95, CHR 0xE3, CHR 0x81, CHR 0x84] @
     [CHR 0xE3, CHR 0x80, CHR 0x82, CHR 0x0A] @ ''        '' @
     [CHR 0xE6, CHR 0x8E, CHR 0xA8, CHR 0xE8, CHR 0x96, CHR 0xA6, CHR 0xE3, CHR 0x81, CHR 0x99] @
     [CHR 0xE3, CHR 0x82, CHR 0x8B, CHR 0xE9, CHR 0x9A, CHR 0x9B, CHR 0xE3, CHR 0x81, CHR 0xAF] @
     [CHR 0xE4, CHR 0xBB, CHR 0xA5, CHR 0xE4, CHR 0xB8, CHR 0x8B, CHR 0xE3, CHR 0x81, CHR 0xAE] @
     [CHR 0xE7, CHR 0x82, CHR 0xB9, CHR 0xE3, CHR 0x82, CHR 0x92, CHR 0xE8, CHR 0x80, CHR 0x83] @
     [CHR 0xE6, CHR 0x85, CHR 0xAE, CHR 0xE3, CHR 0x81, CHR 0x97, CHR 0xE3, CHR 0x81, CHR 0xA6] @
     [CHR 0xE3, CHR 0x81, CHR 0x8F, CHR 0xE3, CHR 0x81, CHR 0xA0, CHR 0xE3, CHR 0x81, CHR 0x95] @
     [CHR 0xE3, CHR 0x81, CHR 0x84, CHR 0xEF, CHR 0xBC, CHR 0x9A, CHR 0x0A] @ ''        1. '' @
     [CHR 0xE3, CHR 0x83, CHR 0xA6, CHR 0xE3, CHR 0x83, CHR 0xBC, CHR 0xE3, CHR 0x82, CHR 0xB6] @
     [CHR 0xE3, CHR 0x83, CHR 0xBC, CHR 0xE3, CHR 0x81, CHR 0xAE, CHR 0xE8, CHR 0x88, CHR 0x88] @
     [CHR 0xE5, CHR 0x91, CHR 0xB3, CHR 0xE5, CHR 0x88, CHR 0x86, CHR 0xE9, CHR 0x87, CHR 0x8E] @
     [CHR 0xE3, CHR 0x81, CHR 0xA8, CHR 0xE3, CHR 0x81, CHR 0xAE, CHR 0xE9, CHR 0x96, CHR 0xA2] @
     [CHR 0xE9, CHR 0x80, CHR 0xA3, CHR 0xE6, CHR 0x80, CHR 0xA7, CHR 0x0A] @ ''        2. '' @
     [CHR 0xE6, CHR 0x9C, CHR 0x80, CHR 0xE6, CHR 0x96, CHR 0xB0, CHR 0xE3, CHR 0x81, CHR 0xAE] @
     [CHR 0xE6, CHR 0x8A, CHR 0x80, CHR 0xE8, CHR 0xA1, CHR 0x93, CHR 0xE3, CHR 0x83, CHR 0x88] @
     [CHR 0xE3, CHR 0x83, CHR 0xAC, CHR 0xE3, CHR 0x83, CHR 0xB3, CHR 0xE3, CHR 0x83, CHR 0x89] @
     [CHR 0x0A] @ ''        3. '' @
     [CHR 0xE5, CHR 0xAD, CHR 0xA6, CHR 0xE7, CHR 0xBF, CHR 0x92, CHR 0xE3, CHR 0x81, CHR 0xAE] @
     [CHR 0xE9, CHR 0x80, CHR 0xA3, CHR 0xE7, CHR 0xB6, CHR 0x9A, CHR 0xE6, CHR 0x80, CHR 0xA7] @
     [CHR 0x0A] @ ''        4. '' @
     [CHR 0xE8, CHR 0xA8, CHR 0x98, CHR 0xE4, CHR 0xBA, CHR 0x8B, CHR 0xE3, CHR 0x81, CHR 0xAE] @
     [CHR 0xE8, CHR 0xB3, CHR 0xAA, CHR 0xE3, CHR 0x81, CHR 0xA8, CHR 0xE4, CHR 0xBF, CHR 0xA1] @
     [CHR 0xE9, CHR 0xA0, CHR 0xBC, CHR 0xE6, CHR 0x80, CHR 0xA7, CHR 0x0A] @ ''        '' @
     [CHR 0x0A] @ ''        '' @
     [CHR 0xE6, CHR 0x8E, CHR 0xA8, CHR 0xE8, CHR 0x96, CHR 0xA6, CHR 0xE8, CHR 0xA8, CHR 0x98] @
     [CHR 0xE4, CHR 0xBA, CHR 0x8B, CHR 0xE3, CHR 0x81, CHR 0xAF, CHR 0xE4, CHR 0xBB, CHR 0xA5] @
     [CHR 0xE4, CHR 0xB8, CHR 0x8B, CHR 0xE3, CHR 0x81, CHR 0xAE, CHR 0xE5, CHR 0xBD, CHR 0xA2] @
     [CHR 0xE5, CHR 0xBC, CHR 0x8F, CHR 0xE3, CHR 0x81, CHR 0xA7, CHR 0xE5, CHR 0x87, CHR 0xBA] @
     [CHR 0xE5, CHR 0x8A, CHR 0x9B, CHR 0xE3, CHR 0x81, CHR 0x97, CHR 0xE3, CHR 0x81, CHR 0xA6] @
     [CHR 0xE3, CHR 0x81, CHR 0x8F, CHR 0xE3, CHR 0x81, CHR 0xA0, CHR 0xE3, CHR 0x81, CHR 0x95] @
     [CHR 0xE3, CHR 0x81, CHR 0x84, CHR 0xEF, CHR 0xBC, CHR 0x9A, CHR 0x0A] @ ''        - '' @
     [CHR 0xE3, CHR 0x82, CHR 0xBF, CHR 0xE3, CHR 0x82, CHR 0xA4, CHR 0xE3, CHR 0x83, CHR 0x88] @
     [CHR 0xE3, CHR 0x83, CHR 0xAB, CHR 0x0A] @ ''        - '' @
     [CHR 0xE6, CHR 0x8E, CHR 0xA8, CHR 0xE8, CHR 0x96, CHR 0xA6, CHR 0xE7, CHR 0x90, CHR 0x86] @
     [CHR 0xE7, CHR 0x94, CHR 0xB1, CHR 0x0A] @ ''        - '' @
     [CHR 0xE6, CHR 0x83, CHR 0xB3, CHR 0xE5, CHR 0xAE, CHR 0x9A, CHR 0xE3, CHR 0x81, CHR 0x95] @
     [CHR 0xE3, CHR 0x82, CHR 0x8C, CHR 0xE3, CHR 0x82, CHR 0x8B, CHR 0xE5, CHR 0xAD, CHR 0xA6] @
     [CHR 0xE7, CHR 0xBF, CHR 0x92, CHR 0xE5, CHR 0x8A, CHR 0xB9, CHR 0xE6, CHR 0x9E, CHR 0x9C]"

text \<open>Line 55: the user message template, before and after its placeholder \<^verbatim>\<open>{history}\<close>.\<close>

definition USER_TEMPLATE_PRE :: string where
  "USER_TEMPLATE_PRE =
     [CHR 0xE8, CHR 0xAA, CHR 0xAD, CHR 0xE3, CHR 0x82, CHR 0x93, CHR 0xE3, CHR 0x81, CHR 0xA0] @
     [CHR 0xE8, CHR 0xA8, CHR 0x98, CHR 0xE4, CHR 0xBA, CHR 0x8B, CHR 0xE3, CHR 0x81, CHR 0xAE] @
     [CHR 0xE5, CHR 0xB1, CHR 0xA5, CHR 0xE6, CHR 0xAD, CHR 0xB4, CHR 0xEF, CHR 0xBC, CHR 0x9A] @
     [CHR 0x0A]"

definition USER_TEMPLATE_POST :: string where
  "USER_TEMPLATE_POST =
     [CHR 0x0A, CHR 0x0A, CHR 0xE3, CHR 0x81, CHR 0x93, CHR 0xE3, CHR 0x82, CHR 0x8C, CHR 0xE3] @
     [CHR 0x82, CHR 0x89, CHR 0xE3, CHR 0x81, CHR 0xAE, CHR 0xE8, CHR 0xA8, CHR 0x98, CHR 0xE4] @
     [CHR 0xBA, CHR 0x8B, CHR 0xE3, CHR 0x82, CHR 0x92, CHR 0xE5, CHR 0x9F, CHR 0xBA, CHR 0xE3] @
     [CHR 0x81, CHR 0xAB, CHR 0xE3, CHR 0x80, CHR 0x81, CHR 0xE3, CHR 0x81, CHR 0x8A, CHR 0xE3] @
     [CHR 0x81, CHR 0x99, CHR 0xE3, CHR 0x81, CHR 0x99, CHR 0xE3, CHR 0x82, CHR 0x81, CHR 0xE3] @
     [CHR 0x81, CHR 0xAE, CHR 0xE6, CHR 0x8A, CHR 0x80, CHR 0xE8, CHR 0xA1, CHR 0x93, CHR 0xE8] @
     [CHR 0xA8, CHR 0x98, CHR 0xE4, CHR 0xBA, CHR 0x8B, CHR 0xE3, CHR 0x82, CHR 0x92] @ ''3'' @
     [CHR 0xE3, CHR 0x81, CHR 0xA4, CHR 0xE6, CHR 0x8F, CHR 0x90, CHR 0xE6, CHR 0xA1, CHR 0x88] @
     [CHR 0xE3, CHR 0x81, CHR 0x97, CHR 0xE3, CHR 0x81, CHR 0xA6, CHR 0xE3, CHR 0x81, CHR 0x8F] @
     [CHR 0xE3, CHR 0x81, CHR 0xA0, CHR 0xE3, CHR 0x81, CHR 0x95, CHR 0xE3, CHR 0x81, CHR 0x84] @
     [CHR 0xE3, CHR 0x80, CHR 0x82]"

text \<open>Line 71: the banner \<^verbatim>\<open>display_results\<close> prints first.\<close>

definition RESULTS_BANNER :: string where
  "RESULTS_BANNER =
     [CHR 0x0A] @ ''[bold green]'' @
     [CHR 0xE3, CHR 0x81, CHR 0x8A, CHR 0xE3, CHR 0x81, CHR 0x99, CHR 0xE3, CHR 0x81, CHR 0x99] @
     [CHR 0xE3, CHR 0x82, CHR 0x81, CHR 0xE3, CHR 0x81, CHR 0xAE, CHR 0xE6, CHR 0x8A, CHR 0x80] @
     [CHR 0xE8, CHR 0xA1, CHR 0x93, CHR 0xE8, CHR 0xA8, CHR 0x98, CHR 0xE4, CHR 0xBA, CHR 0x8B] @
     ''[/bold green]''"

text \<open>Line 73: the f-string of a section label, around the ordinal.\<close>

definition LABEL_PRE :: string where
  "LABEL_PRE =
     [CHR 0x0A] @ ''[bold yellow]'' @
     [CHR 0xE6, CHR 0x8E, CHR 0xA8, CHR 0xE8, CHR 0x96, CHR 0xA6] @ '' ''"

definition LABEL_POST :: string where
  "LABEL_POST =
     ''[/bold yellow]''"

text \<open>Lines 101-102: the two lines printed when the credential is missing.\<close>

definition NO_KEY_LINE1 :: string where
  "NO_KEY_LINE1 =
     ''[bold red]'' @
     [CHR 0xE3, CHR 0x82, CHR 0xA8, CHR 0xE3, CHR 0x83, CHR 0xA9, CHR 0xE3, CHR 0x83, CHR 0xBC] @
     '': OPENAI_API_KEY'' @
     [CHR 0xE3, CHR 0x81, CHR 0x8C, CHR 0xE8, CHR 0xA8, CHR 0xAD, CHR 0xE5, CHR 0xAE, CHR 0x9A] @
     [CHR 0xE3, CHR 0x81, CHR 0x95, CHR 0xE3, CHR 0x82, CHR 0x8C, CHR 0xE3, CHR 0x81, CHR 0xA6] @
     [CHR 0xE3, CHR 0x81, CHR 0x84, CHR 0xE3, CHR 0x81, CHR 0xBE, CHR 0xE3, CHR 0x81, CHR 0x9B] @
     [CHR 0xE3, CHR 0x82, CHR 0x93, CHR 0xE3, CHR 0x80, CHR 0x82] @ ''[/bold red]''"

definition NO_KEY_LINE2 :: string where
  "NO_KEY_LINE2 =
     [CHR 0xE7, CHR 0x92, CHR 0xB0, CHR 0xE5, CHR 0xA2, CHR 0x83, CHR 0xE5, CHR 0xA4, CHR 0x89] @
     [CHR 0xE6, CHR 0x95, CHR 0xB0, CHR 0xE3, CHR 0x83, CHR 0x95, CHR 0xE3, CHR 0x82, CHR 0xA1] @
     [CHR 0xE3, CHR 0x82, CHR 0xA4, CHR 0xE3, CHR 0x83, CHR 0xAB] @ ''(.env)'' @
     [CHR 0xE3, CHR 0x81, CHR 0xAB] @ ''OPENAI_API_KEY'' @
     [CHR 0xE3, CHR 0x82, CHR 0x92, CHR 0xE8, CHR 0xA8, CHR 0xAD, CHR 0xE5, CHR 0xAE, CHR 0x9A] @
     [CHR 0xE3, CHR 0x81, CHR 0x97, CHR 0xE3, CHR 0x81, CHR 0xA6, CHR 0xE3, CHR 0x81, CHR 0x8F] @
     [CHR 0xE3, CHR 0x81, CHR 0xA0, CHR 0xE3, CHR 0x81, CHR 0x95, CHR 0xE3, CHR 0x81, CHR 0x84] @
     [CHR 0xE3, CHR 0x80, CHR 0x82]"

text \<open>Line 110: the f-string of the handler, around \<^verbatim>\<open>str(e)\<close>.\<close>

definition HANDLER_PRE :: string where
  "HANDLER_PRE =
     ''[bold red]'' @
     [CHR 0xE3, CHR 0x82, CHR 0xA8, CHR 0xE3, CHR 0x83, CHR 0xA9, CHR 0xE3, CHR 0x83, CHR 0xBC] @
     [CHR 0xE3, CHR 0x81, CHR 0x8C, CHR 0xE7, CHR 0x99, CHR 0xBA, CHR 0xE7, CHR 0x94, CHR 0x9F] @
     [CHR 0xE3, CHR 0x81, CHR 0x97, CHR 0xE3, CHR 0x81, CHR 0xBE, CHR 0xE3, CHR 0x81, CHR 0x97] @
     [CHR 0xE3, CHR 0x81, CHR 0x9F] @ '': ''"

definition HANDLER_POST :: string where
  "HANDLER_POST =
     ''[/bold red]''"

section \<open>The session state\<close>

text \<open>
  Lines 23-26. The class \<^verbatim>\<open>ArticleState\<close>: two lists of text, both empty in a fresh
  object. The source mutates the one object and hands it from stage to stage; no other
  reference to it exists, so the model passes the record along.
\<close>

record ArticleState =
  read_articles :: "string list"
  recommendations :: "string list"

definition ArticleState_init :: ArticleState where
  "ArticleState_init = \<lparr>read_articles = [], recommendations = []\<rparr>"

section \<open>The world outside the script\<close>

text \<open>
  A request to the endpoint: the model name given to \<^verbatim>\<open>ChatOpenAI\<close> and the formatted
  messages, each a role and its text.
\<close>

record request =
  model :: string
  messages :: "(string \<times> string) list"

text \<open>
  What one run of the script meets:
  \<^item> \<open>environ\<close>: the process environment after \<^verbatim>\<open>load_dotenv()\<close>, read by
    \<^verbatim>\<open>os.getenv\<close>;
  \<^item> \<open>answers n\<close>: what call number \<open>n\<close> (from 0) of \<^verbatim>\<open>Prompt.ask\<close> does: it returns a
    text (the line entered, as the prompt library hands it to the script), or raises
    (\<^verbatim>\<open>EOFError\<close> when the input is closed, \<^verbatim>\<open>KeyboardInterrupt\<close>);
  \<^item> \<open>compile_raises\<close>: the exception of the graph library when the graph is built and
    compiled, if it raises one;
  \<^item> \<open>invoke_error\<close>: the text of the exception with which the graph library rejects
    the input of \<^verbatim>\<open>graph.invoke\<close> (see \<open>invoke\<close> below);
  \<^item> \<open>completion r\<close>: what the chain \<^verbatim>\<open>prompt | llm | StrOutputParser()\<close> does with the
    request \<open>r\<close>: it returns the completion text, or raises;
  \<^item> \<open>markup_error t\<close>: the verdict of the console library's markup parser on a text
    \<open>t\<close> that holds a \<^verbatim>\<open>[\<close>: \<open>None\<close> when it accepts the text, or the message of the
    \<^verbatim>\<open>MarkupError\<close> it raises (a closing tag such as \<^verbatim>\<open>[/b]\<close> with no open tag before
    it is rejected).
\<close>

record world =
  environ :: "string \<Rightarrow> string option"
  answers :: "nat \<Rightarrow> exn + string"
  compile_raises :: "exn option"
  invoke_error :: string
  completion :: "request \<Rightarrow> exn + string"
  markup_error :: "string \<Rightarrow> string option"

text \<open>
  What the script has done so far:
  \<^item> \<open>printed\<close>: the arguments of the calls of \<^verbatim>\<open>console.print\<close> that returned, in
    order. The console reads markup in them: what the terminal shows of an argument is
    the library's rendering, in which matched tags are styles and are not shown;
  \<^item> \<open>asked\<close>: the prompts of the calls of \<^verbatim>\<open>Prompt.ask\<close>, in order;
  \<^item> \<open>invoked\<close>: the requests of the calls of \<^verbatim>\<open>chain.invoke\<close>, one for each call, in
    order. How often the client library puts the request of one call on the wire is the
    library's: it tries again when the connection fails.
\<close>

record io =
  printed :: "string list"
  asked :: "string list"
  invoked :: "request list"

text \<open>
  \<^verbatim>\<open>console.print\<close> on a text of the script's own: the banners, the two lines of the
  missing credential and the labels, whose only variable part is the decimal digits of
  the counter. Their tags are matched, and the console prints them.
\<close>

definition console_print :: "string \<Rightarrow> io \<Rightarrow> io" where
  "console_print msg io = io\<lparr>printed := printed io @ [msg]\<rparr>"

text \<open>
  \<^verbatim>\<open>console.print\<close> on a text that holds data (an entry of the recommendations at line
  74, the text of an exception at line 110). A text with no \<^verbatim>\<open>[\<close> holds no markup and
  is printed; any other text is printed when the markup parser accepts it, and
  otherwise the call raises \<^verbatim>\<open>MarkupError\<close>, an instance of \<^verbatim>\<open>Exception\<close>, and prints
  nothing.
\<close>

definition markup_rejects :: "world \<Rightarrow> string \<Rightarrow> string option" where
  "markup_rejects w msg = (if CHR ''['' \<in> set msg then markup_error w msg else None)"

definition console_print_data :: "world \<Rightarrow> string \<Rightarrow> io \<Rightarrow> exn option \<times> io" where
  "console_print_data w msg io =
     (case markup_rejects w msg of
        None \<Rightarrow> (None, io\<lparr>printed := printed io @ [msg]\<rparr>)
      | Some m \<Rightarrow> (Some (Exception m), io))"

definition Prompt_ask :: "world \<Rightarrow> string \<Rightarrow> io \<Rightarrow> (exn + string) \<times> io" where
  "Prompt_ask w prompt io = (answers w (length (asked io)), io\<lparr>asked := asked io @ [prompt]\<rparr>)"

text \<open>
  A pipeline stage takes the state and returns it, or raises; \<open>None\<close> is a stage that
  never returns.
\<close>

type_synonym node = "ArticleState \<Rightarrow> io \<Rightarrow> ((exn + ArticleState) \<times> io) option"

section \<open>The history collector\<close>

text \<open>
  Lines 31-35, one pass through the body of \<^verbatim>\<open>while True\<close>: the prompt raises, or the
  answer is the sentinel and the loop breaks, or the answer is appended.
\<close>

datatype 'a step = Raised exn | Break | Next 'a

definition collect_body :: "world \<Rightarrow> ArticleState \<Rightarrow> io \<Rightarrow> ArticleState step \<times> io" where
  "collect_body w state io =
     (case Prompt_ask w ASK_PROMPT io of
        (Inl e, io') \<Rightarrow> (Raised e, io')
      | (Inr article, io') \<Rightarrow>
          if lower article = ''done'' then (Break, io')
          else (Next (state\<lparr>read_articles := read_articles state @ [article]\<rparr>), io'))"

partial_function (option) collect_loop :: "world \<Rightarrow> ArticleState \<Rightarrow> io \<Rightarrow> ((exn + ArticleState) \<times> io) option" where
  "collect_loop w state io =
     (case collect_body w state io of
        (Raised e, io') \<Rightarrow> Some (Inl e, io')
      | (Break, io') \<Rightarrow> Some (Inr state, io')
      | (Next state', io') \<Rightarrow> collect_loop w state' io')"

declare collect_loop.simps [code]

text \<open>Lines 29-36.\<close>

definition collect_history :: "world \<Rightarrow> node" where
  "collect_history w state io = collect_loop w state (console_print COLLECT_BANNER io)"

text \<open>
  The states the loop passes through: \<open>collect_reach w c c'\<close> when \<open>c'\<close> is the state
  and console at the head of the loop some passes after \<open>c\<close>.
\<close>

inductive collect_reach :: "world \<Rightarrow> ArticleState \<times> io \<Rightarrow> ArticleState \<times> io \<Rightarrow> bool" for w c where
  start: "collect_reach w c c"
| pass: "collect_reach w c (state, io) \<Longrightarrow> collect_body w state io = (Next state', io')
     \<Longrightarrow> collect_reach w c (state', io')"

section \<open>The recommendation generator\<close>

text \<open>
  Lines 39-67. The first stage of the chain joins the history with newlines; the
  template puts it into the user message; the endpoint answers or raises; the answer
  is split at \<^verbatim>\<open>"\n\n"\<close> and stored. When the chain raises, the assignment of line 66
  is not reached.
\<close>

definition format_messages :: "string \<Rightarrow> (string \<times> string) list" where
  "format_messages history =
     [(''system'', SYSTEM_TEMPLATE),
      (''user'', USER_TEMPLATE_PRE @ history @ USER_TEMPLATE_POST)]"

definition chain_invoke :: "world \<Rightarrow> ArticleState \<Rightarrow> io \<Rightarrow> (exn + string) \<times> io" where
  "chain_invoke w x io =
     (let history = join ''\<newline>'' (read_articles x);
          r = \<lparr>model = ''gpt-3.5-turbo'', messages = format_messages history\<rparr>
      in (completion w r, io\<lparr>invoked := invoked io @ [r]\<rparr>))"

definition generate_recommendations :: "world \<Rightarrow> node" where
  "generate_recommendations w state io =
     (case chain_invoke w state io of
        (Inl e, io') \<Rightarrow> Some (Inl e, io')
      | (Inr recs, io') \<Rightarrow>
          (case split recs ''\<newline>\<newline>'' of
             Inl e \<Rightarrow> Some (Inl e, io')
           | Inr parts \<Rightarrow> Some (Inr (state\<lparr>recommendations := parts\<rparr>), io')))"

section \<open>The result presenter\<close>

text \<open>
  Lines 72-74: the loop over \<^verbatim>\<open>enumerate(state.recommendations, 1)\<close>, with \<open>i\<close> the
  counter of the next entry. The label is printed, then the entry; when the console
  rejects the entry the exception ends the loop, after the label and before the entries
  that follow. The result is the exception, if any, and the console.
\<close>

definition label :: "int \<Rightarrow> string" where
  "label i = LABEL_PRE @ str i @ LABEL_POST"

fun display_loop :: "world \<Rightarrow> int \<Rightarrow> string list \<Rightarrow> io \<Rightarrow> exn option \<times> io" where
  "display_loop w i [] io = (None, io)"
| "display_loop w i (r # rs) io =
     (case console_print_data w r (console_print (label i) io) of
        (Some e, io') \<Rightarrow> (Some e, io')
      | (None, io') \<Rightarrow> display_loop w (i + 1) rs io')"

text \<open>Lines 70-75.\<close>

definition display_results :: "world \<Rightarrow> node" where
  "display_results w state io =
     (case display_loop w 1 (recommendations state) (console_print RESULTS_BANNER io) of
        (Some e, io') \<Rightarrow> Some (Inl e, io')
      | (None, io') \<Rightarrow> Some (Inr state, io'))"

text \<open>
  What the specification says the presenter prints for a list: for each entry, in
  list order, a label with the entry's ordinal from 1, then the entry.
\<close>

definition labelled_sections :: "string list \<Rightarrow> string list" where
  "labelled_sections recs =
     concat (map (\<lambda>(k, r). [label (int k), r]) (enumerate 1 recs))"

section \<open>The pipeline\<close>

text \<open>
  Lines 78-94. The graph as \<^verbatim>\<open>build_graph\<close> builds it: named nodes, edges and an entry
  point. \<open>END\<close> is the library's end marker.
\<close>

record graph =
  nodes :: "(string \<times> node) list"
  edges :: "(string \<times> string) list"
  entry_point :: "string option"

definition END :: string where
  "END = ''__end__''"

definition StateGraph :: graph where
  "StateGraph = \<lparr>nodes = [], edges = [], entry_point = None\<rparr>"

definition add_node :: "string \<Rightarrow> node \<Rightarrow> graph \<Rightarrow> graph" where
  "add_node name f g = g\<lparr>nodes := nodes g @ [(name, f)]\<rparr>"

definition add_edge :: "string \<Rightarrow> string \<Rightarrow> graph \<Rightarrow> graph" where
  "add_edge a b g = g\<lparr>edges := edges g @ [(a, b)]\<rparr>"

definition set_entry_point :: "string \<Rightarrow> graph \<Rightarrow> graph" where
  "set_entry_point name g = g\<lparr>entry_point := Some name\<rparr>"

definition compile :: "world \<Rightarrow> graph \<Rightarrow> exn + graph" where
  "compile w g = (case compile_raises w of Some e \<Rightarrow> Inl e | None \<Rightarrow> Inr g)"

definition build_graph :: "world \<Rightarrow> exn + graph" where
  "build_graph w =
     compile w
       (set_entry_point ''collect_history''
         (add_edge ''display_results'' END
           (add_edge ''generate_recommendations'' ''display_results''
             (add_edge ''collect_history'' ''generate_recommendations''
               (add_node ''display_results'' (display_results w)
                 (add_node ''generate_recommendations'' (generate_recommendations w)
                   (add_node ''collect_history'' (collect_history w) StateGraph)))))))"

text \<open>
  \<^verbatim>\<open>graph.invoke(ArticleState())\<close>. The graph is built on \<^verbatim>\<open>StateGraph(ArticleState)\<close>, and
  \<^verbatim>\<open>ArticleState\<close> names its two lists inside \<^verbatim>\<open>__init__\<close> only: the class itself has no
  annotations, so the graph has no state channels, and the input handed to
  \<^verbatim>\<open>invoke\<close> is an object of that class, not a dict. The library rejects such an input
  with an instance of \<^verbatim>\<open>Exception\<close> before it runs any node: no stage of the graph is
  reached through \<^verbatim>\<open>invoke\<close>. The text of the exception is the library's.
\<close>

definition invoke :: "world \<Rightarrow> graph \<Rightarrow> node" where
  "invoke w g state io = Some (Inl (Exception (invoke_error w)), io)"

section \<open>The entry point\<close>

text \<open>
  Line 100: \<^verbatim>\<open>not os.getenv(...)\<close> holds for an unset variable and for an empty value.
\<close>

definition not_getenv :: "world \<Rightarrow> string \<Rightarrow> bool" where
  "not_getenv w name = (case environ w name of None \<Rightarrow> True | Some v \<Rightarrow> v = [])"

text \<open>Lines 99-107: the body of the \<^verbatim>\<open>try\<close>.\<close>

definition main_try :: "world \<Rightarrow> io \<Rightarrow> ((exn + unit) \<times> io) option" where
  "main_try w io =
     (if not_getenv w ''OPENAI_API_KEY''
      then Some (Inr (), console_print NO_KEY_LINE2 (console_print NO_KEY_LINE1 io))
      else case build_graph w of
        Inl e \<Rightarrow> Some (Inl e, io)
      | Inr g \<Rightarrow>
          (case invoke w g ArticleState_init io of
             None \<Rightarrow> None
           | Some (Inl e, io') \<Rightarrow> Some (Inl e, io')
           | Some (Inr state, io') \<Rightarrow> Some (Inr (), io')))"

text \<open>
  Lines 96-110. How a call of \<^verbatim>\<open>main\<close> ends: it returns, or an exception leaves it.
  The handler catches the instances of \<^verbatim>\<open>Exception\<close> and prints a line that holds their
  text; when the console rejects that line, its exception is raised inside the handler
  and leaves \<^verbatim>\<open>main\<close>.
\<close>

datatype outcome = Returned | Propagated exn

definition main :: "world \<Rightarrow> io \<Rightarrow> (outcome \<times> io) option" where
  "main w io =
     (case main_try w io of
        None \<Rightarrow> None
      | Some (Inr u, io') \<Rightarrow> Some (Returned, io')
      | Some (Inl (Exception msg), io') \<Rightarrow>
          (case console_print_data w (HANDLER_PRE @ msg @ HANDLER_POST) io' of
             (None, io'') \<Rightarrow> Some (Returned, io'')
           | (Some e, io'') \<Rightarrow> Some (Propagated e, io''))
      | Some (Inl KeyboardInterrupt, io') \<Rightarrow> Some (Propagated KeyboardInterrupt, io'))"

definition io_init :: io where
  "io_init = \<lparr>printed = [], asked = [], invoked = []\<rparr>"


section \<open>Facts about the collection loop\<close>

lemma collect_body_raise:
  "answers w (length (asked io)) = Inl e \<Longrightarrow>
   collect_body w s io = (Raised e, io\<lparr>asked := asked io @ [ASK_PROMPT]\<rparr>)"
  by (simp add: collect_body_def Prompt_ask_def)

lemma collect_body_break:
  "answers w (length (asked io)) = Inr a \<Longrightarrow> lower a = ''done'' \<Longrightarrow>
   collect_body w s io = (Break, io\<lparr>asked := asked io @ [ASK_PROMPT]\<rparr>)"
  by (simp add: collect_body_def Prompt_ask_def)

lemma collect_body_next:
  "answers w (length (asked io)) = Inr a \<Longrightarrow> lower a \<noteq> ''done'' \<Longrightarrow>
   collect_body w s io =
     (Next (s\<lparr>read_articles := read_articles s @ [a]\<rparr>), io\<lparr>asked := asked io @ [ASK_PROMPT]\<rparr>)"
  by (simp add: collect_body_def Prompt_ask_def)

lemma collect_body_cases:
  assumes "\<And>e. answers w (length (asked io)) = Inl e \<Longrightarrow> R"
    and "\<And>a. answers w (length (asked io)) = Inr a \<Longrightarrow> lower a = ''done'' \<Longrightarrow> R"
    and "\<And>a. answers w (length (asked io)) = Inr a \<Longrightarrow> lower a \<noteq> ''done'' \<Longrightarrow> R"
  shows R
  using assms by (cases "answers w (length (asked io))") auto

lemma collect_loop_skip:
  "\<forall>k<length pre. answers w (length (asked io) + k) = Inr (pre ! k) \<and> lower (pre ! k) \<noteq> ''done'' \<Longrightarrow>
   collect_loop w s io =
     collect_loop w (s\<lparr>read_articles := read_articles s @ pre\<rparr>)
       (io\<lparr>asked := asked io @ replicate (length pre) ASK_PROMPT\<rparr>)"
proof (induction pre arbitrary: s io)
  case Nil
  show ?case by simp
next
  case (Cons a pre)
  from Cons.prems have a: "answers w (length (asked io)) = Inr a" "lower a \<noteq> ''done''"
    by auto
  let ?s = "s\<lparr>read_articles := read_articles s @ [a]\<rparr>"
  let ?io = "io\<lparr>asked := asked io @ [ASK_PROMPT]\<rparr>"
  have rest: "\<forall>k<length pre. answers w (length (asked ?io) + k) = Inr (pre ! k) \<and> lower (pre ! k) \<noteq> ''done''"
  proof (intro allI impI)
    fix k assume "k < length pre"
    then have "Suc k < length (a # pre)" by simp
    with Cons.prems have "answers w (length (asked io) + Suc k) = Inr ((a # pre) ! Suc k) \<and> lower ((a # pre) ! Suc k) \<noteq> ''done''"
      by blast
    then show "answers w (length (asked ?io) + k) = Inr (pre ! k) \<and> lower (pre ! k) \<noteq> ''done''"
      by simp
  qed
  have "collect_loop w s io = collect_loop w ?s ?io"
    by (subst collect_loop.simps) (simp add: collect_body_next [OF a])
  also have "\<dots> = collect_loop w (?s\<lparr>read_articles := read_articles ?s @ pre\<rparr>)
       (?io\<lparr>asked := asked ?io @ replicate (length pre) ASK_PROMPT\<rparr>)"
    by (rule Cons.IH [OF rest])
  finally show ?case by (simp add: replicate_append_same)
qed

lemma collect_loop_break:
  "answers w (length (asked io)) = Inr a \<Longrightarrow> lower a = ''done'' \<Longrightarrow>
   collect_loop w s io = Some (Inr s, io\<lparr>asked := asked io @ [ASK_PROMPT]\<rparr>)"
  by (subst collect_loop.simps) (simp add: collect_body_break)

lemma collect_loop_raise:
  "answers w (length (asked io)) = Inl e \<Longrightarrow>
   collect_loop w s io = Some (Inl e, io\<lparr>asked := asked io @ [ASK_PROMPT]\<rparr>)"
  by (subst collect_loop.simps) (simp add: collect_body_raise)

lemma collect_loop_sentinel:
  assumes "\<forall>k<length pre. answers w (length (asked io) + k) = Inr (pre ! k) \<and> lower (pre ! k) \<noteq> ''done''"
    and "answers w (length (asked io) + length pre) = Inr d" and "lower d = ''done''"
  shows "collect_loop w s io =
     Some (Inr (s\<lparr>read_articles := read_articles s @ pre\<rparr>),
           io\<lparr>asked := asked io @ replicate (Suc (length pre)) ASK_PROMPT\<rparr>)"
proof -
  let ?io = "io\<lparr>asked := asked io @ replicate (length pre) ASK_PROMPT\<rparr>"
  have "answers w (length (asked ?io)) = Inr d" using assms(2) by simp
  from collect_loop_break [OF this assms(3)] collect_loop_skip [OF assms(1)]
  show ?thesis by (simp add: replicate_append_same)
qed

lemma collect_loop_exception:
  assumes "\<forall>k<length pre. answers w (length (asked io) + k) = Inr (pre ! k) \<and> lower (pre ! k) \<noteq> ''done''"
    and "answers w (length (asked io) + length pre) = Inl e"
  shows "collect_loop w s io =
     Some (Inl e, io\<lparr>asked := asked io @ replicate (Suc (length pre)) ASK_PROMPT\<rparr>)"
proof -
  let ?io = "io\<lparr>asked := asked io @ replicate (length pre) ASK_PROMPT\<rparr>"
  have "answers w (length (asked ?io)) = Inl e" using assms(2) by simp
  from collect_loop_raise [OF this] collect_loop_skip [OF assms(1)]
  show ?thesis by (simp add: replicate_append_same)
qed

lemma collect_loop_returns:
  "collect_loop w s io = Some y \<Longrightarrow>
   \<exists>pre. (\<forall>k<length pre. answers w (length (asked io) + k) = Inr (pre ! k) \<and> lower (pre ! k) \<noteq> ''done'') \<and>
     ((\<exists>e. answers w (length (asked io) + length pre) = Inl e \<and> fst y = Inl e) \<or>
      (\<exists>d. answers w (length (asked io) + length pre) = Inr d \<and> lower d = ''done'' \<and>
           fst y = Inr (s\<lparr>read_articles := read_articles s @ pre\<rparr>)))"
proof (induct w s io y rule: collect_loop.raw_induct [rotated 1, consumes 1, case_names step])
  case (step loop w s io y)
  note 1 = step
  show ?case
  proof (rule collect_body_cases [of w io])
    fix e assume raise: "answers w (length (asked io)) = Inl e"
    with 1(2) have "fst y = Inl e" by (auto simp: collect_body_raise)
    with raise show ?thesis by (intro exI [of _ "[]"]) simp
  next
    fix a assume break: "answers w (length (asked io)) = Inr a" "lower a = ''done''"
    with 1(2) have "fst y = Inr s" by (auto simp: collect_body_break)
    with break show ?thesis by (intro exI [of _ "[]"]) simp
  next
    fix a assume nxt: "answers w (length (asked io)) = Inr a" "lower a \<noteq> ''done''"
    let ?s = "s\<lparr>read_articles := read_articles s @ [a]\<rparr>"
    let ?io = "io\<lparr>asked := asked io @ [ASK_PROMPT]\<rparr>"
    from nxt 1(2) have "loop w ?s ?io = Some y" by (simp add: collect_body_next)
    from 1(1) [OF this] obtain pre where
      pre: "\<forall>k<length pre. answers w (length (asked ?io) + k) = Inr (pre ! k) \<and> lower (pre ! k) \<noteq> ''done''"
      and fin: "(\<exists>e. answers w (length (asked ?io) + length pre) = Inl e \<and> fst y = Inl e) \<or>
      (\<exists>d. answers w (length (asked ?io) + length pre) = Inr d \<and> lower d = ''done'' \<and>
           fst y = Inr (?s\<lparr>read_articles := read_articles ?s @ pre\<rparr>))"
      by blast
    have "\<forall>k<length (a # pre). answers w (length (asked io) + k) = Inr ((a # pre) ! k) \<and> lower ((a # pre) ! k) \<noteq> ''done''"
    proof (intro allI impI)
      fix k assume k: "k < length (a # pre)"
      show "answers w (length (asked io) + k) = Inr ((a # pre) ! k) \<and> lower ((a # pre) ! k) \<noteq> ''done''"
      proof (cases k)
        case 0
        with nxt show ?thesis by simp
      next
        case (Suc j)
        with k pre show ?thesis by simp
      qed
    qed
    moreover from fin have "(\<exists>e. answers w (length (asked io) + length (a # pre)) = Inl e \<and> fst y = Inl e) \<or>
      (\<exists>d. answers w (length (asked io) + length (a # pre)) = Inr d \<and> lower d = ''done'' \<and>
           fst y = Inr (s\<lparr>read_articles := read_articles s @ (a # pre)\<rparr>))"
      by simp
    ultimately show ?thesis by blast
  qed
qed

lemma collect_loop_diverges:
  assumes "\<forall>k. \<exists>a. answers w (length (asked io) + k) = Inr a \<and> lower a \<noteq> ''done''"
  shows "collect_loop w s io = None"
proof (cases "collect_loop w s io")
  case None
  then show ?thesis .
next
  case (Some y)
  from collect_loop_returns [OF Some] assms show ?thesis
    by (metis Inl_Inr_False sum.inject(2))
qed

section \<open>Facts about splitting\<close>


lemma split_examples:
  "split ''A\<newline>\<newline>B\<newline>\<newline>C'' ''\<newline>\<newline>'' = Inr [''A'', ''B'', ''C'']"
  "split ''a\<newline>\<newline>\<newline>b'' ''\<newline>\<newline>'' = Inr [''a'', ''\<newline>b'']"
  "split ''a\<newline>\<newline>'' ''\<newline>\<newline>'' = Inr [''a'', []]"
  "split ''a\<newline>b'' ''\<newline>\<newline>'' = Inr [''a\<newline>b'']"
  "split ''ab'' [] = Inl (Exception ''empty separator'')"
  by (simp_all add: split_def)


section \<open>Facts about text\<close>

lemma lower_char_d: "lower_char c = CHR ''d'' \<longleftrightarrow> c = CHR ''d'' \<or> c = CHR ''D''"
  by (auto simp add: lower_char_def)
lemma lower_char_o: "lower_char c = CHR ''o'' \<longleftrightarrow> c = CHR ''o'' \<or> c = CHR ''O''"
  by (auto simp add: lower_char_def)
lemma lower_char_n: "lower_char c = CHR ''n'' \<longleftrightarrow> c = CHR ''n'' \<or> c = CHR ''N''"
  by (auto simp add: lower_char_def)
lemma lower_char_e: "lower_char c = CHR ''e'' \<longleftrightarrow> c = CHR ''e'' \<or> c = CHR ''E''"
  by (auto simp add: lower_char_def)

lemma lower_done_variants:
  "lower a = ''done'' \<longleftrightarrow>
     (\<exists>c1 c2 c3 c4. a = [c1, c2, c3, c4] \<and> (c1 = CHR ''d'' \<or> c1 = CHR ''D'') \<and>
        (c2 = CHR ''o'' \<or> c2 = CHR ''O'') \<and> (c3 = CHR ''n'' \<or> c3 = CHR ''N'') \<and>
        (c4 = CHR ''e'' \<or> c4 = CHR ''E''))"
proof
  assume "lower a = ''done''"
  then obtain c1 c2 c3 c4 where a: "a = [c1, c2, c3, c4]"
    and c: "lower_char c1 = CHR ''d''" "lower_char c2 = CHR ''o''"
      "lower_char c3 = CHR ''n''" "lower_char c4 = CHR ''e''"
    unfolding lower_def by (auto simp only: map_eq_Cons_conv map_is_Nil_conv)
  from c show "\<exists>c1 c2 c3 c4. a = [c1, c2, c3, c4] \<and> (c1 = CHR ''d'' \<or> c1 = CHR ''D'') \<and>
        (c2 = CHR ''o'' \<or> c2 = CHR ''O'') \<and> (c3 = CHR ''n'' \<or> c3 = CHR ''N'') \<and>
        (c4 = CHR ''e'' \<or> c4 = CHR ''E'')"
    unfolding lower_char_d lower_char_o lower_char_n lower_char_e a by blast
next
  assume "\<exists>c1 c2 c3 c4. a = [c1, c2, c3, c4] \<and> (c1 = CHR ''d'' \<or> c1 = CHR ''D'') \<and>
        (c2 = CHR ''o'' \<or> c2 = CHR ''O'') \<and> (c3 = CHR ''n'' \<or> c3 = CHR ''N'') \<and>
        (c4 = CHR ''e'' \<or> c4 = CHR ''E'')"
  then obtain c1 c2 c3 c4 where a: "a = [c1, c2, c3, c4]"
    and c: "lower_char c1 = CHR ''d''" "lower_char c2 = CHR ''o''"
      "lower_char c3 = CHR ''n''" "lower_char c4 = CHR ''e''"
    unfolding lower_char_d lower_char_o lower_char_n lower_char_e by blast
  then show "lower a = ''done''" by (simp add: lower_def)
qed

lemma lower_examples: "lower ''DoNe'' = ''done''" "lower ''done '' \<noteq> ''done''"
  by (simp_all add: lower_def lower_char_def)

lemma str_small: "str 1 = ''1''" "str 2 = ''2''" "str 3 = ''3''"
  by (simp_all add: str_def digits.simps)

section \<open>Facts about the graph\<close>



section \<open>The missing credential\<close>

text \<open>
  Claim C1. When \<^verbatim>\<open>OPENAI_API_KEY\<close> is unset, \<^verbatim>\<open>main\<close> prints its two lines and
  returns: no prompt is asked, the chain is never invoked, so that no request goes to
  the endpoint, and no exception leaves \<^verbatim>\<open>main\<close>, whatever the rest of the world would
  have done.
\<close>

theorem main_without_credential:
  assumes "environ w ''OPENAI_API_KEY'' = None"
  shows "main w io = Some (Returned, io\<lparr>printed := printed io @ [NO_KEY_LINE1, NO_KEY_LINE2]\<rparr>)"
  using assms by (simp add: main_def main_try_def not_getenv_def console_print_def)

text \<open>
  A world with no variable set, in which every prompt, the graph library and the
  endpoint would raise: nothing of it is reached.
\<close>

theorem main_without_credential_witness:
  "main \<lparr>environ = (\<lambda>name. None), answers = (\<lambda>n. Inl KeyboardInterrupt),
          compile_raises = Some KeyboardInterrupt, invoke_error = ''Expected dict'',
          completion = (\<lambda>r. Inl KeyboardInterrupt),
      markup_error = (\<lambda>t. None)\<rparr> io_init =
     Some (Returned, \<lparr>printed = [NO_KEY_LINE1, NO_KEY_LINE2], asked = [], invoked = []\<rparr>)"
  using main_without_credential [of "\<lparr>environ = (\<lambda>name. None), answers = (\<lambda>n. Inl KeyboardInterrupt),
          compile_raises = Some KeyboardInterrupt, invoke_error = ''Expected dict'',
          completion = (\<lambda>r. Inl KeyboardInterrupt),
      markup_error = (\<lambda>t. None)\<rparr>" io_init]
  by (simp add: io_init_def)

section \<open>The collected history\<close>

lemma collect_history_loop:
  "collect_history w state io = collect_loop w state (io\<lparr>printed := printed io @ [COLLECT_BANNER]\<rparr>)"
  by (simp add: collect_history_def console_print_def)

text \<open>
  Claim C2. When the prompts return the texts \<open>pre\<close>, none of them the sentinel, and
  then a sentinel, \<^verbatim>\<open>collect_history\<close> returns with \<open>pre\<close> appended to \<open>read_articles\<close>:
  started on the fresh state, the list is exactly \<open>pre\<close>, as many entries as were
  entered, in the order they were entered. The sentinel is the last prompt asked.
\<close>

theorem collect_history_collects:
  assumes "\<forall>k<length pre. answers w (length (asked io) + k) = Inr (pre ! k) \<and> lower (pre ! k) \<noteq> ''done''"
    and "answers w (length (asked io) + length pre) = Inr d" and "lower d = ''done''"
  shows "collect_history w state io =
       Some (Inr (state\<lparr>read_articles := read_articles state @ pre\<rparr>),
             io\<lparr>printed := printed io @ [COLLECT_BANNER],
                asked := asked io @ replicate (Suc (length pre)) ASK_PROMPT\<rparr>) \<and>
     (\<exists>state' io'. collect_history w ArticleState_init io = Some (Inr state', io') \<and>
        read_articles state' = pre \<and> length (read_articles state') = length pre)"
proof -
  let ?io = "io\<lparr>printed := printed io @ [COLLECT_BANNER]\<rparr>"
  have pre: "\<forall>k<length pre. answers w (length (asked ?io) + k) = Inr (pre ! k) \<and> lower (pre ! k) \<noteq> ''done''"
    using assms(1) by simp
  have d: "answers w (length (asked ?io) + length pre) = Inr d"
    using assms(2) by simp
  have run: "collect_history w s io =
       Some (Inr (s\<lparr>read_articles := read_articles s @ pre\<rparr>),
             io\<lparr>printed := printed io @ [COLLECT_BANNER],
                asked := asked io @ replicate (Suc (length pre)) ASK_PROMPT\<rparr>)" for s
    unfolding collect_history_loop collect_loop_sentinel [OF pre d assms(3)] by simp
  from run [of ArticleState_init] have "\<exists>state' io'. collect_history w ArticleState_init io = Some (Inr state', io') \<and>
        read_articles state' = pre \<and> length (read_articles state') = length pre"
    by (simp add: ArticleState_init_def)
  with run [of state] show ?thesis by blast
qed

text \<open>Two articles, then the sentinel in capitals.\<close>

theorem collect_history_collects_witness:
  "collect_history
     \<lparr>environ = (\<lambda>name. None),
      answers = (\<lambda>n. if n = 0 then Inr ''Intro to gRPC'' else if n = 1 then Inr ''Raft, explained'' else Inr ''DONE''),
      compile_raises = None, invoke_error = ''Expected dict'', completion = (\<lambda>r. Inr []),
      markup_error = (\<lambda>t. None)\<rparr> ArticleState_init io_init =
   Some (Inr \<lparr>read_articles = [''Intro to gRPC'', ''Raft, explained''], recommendations = []\<rparr>,
         \<lparr>printed = [COLLECT_BANNER], asked = [ASK_PROMPT, ASK_PROMPT, ASK_PROMPT], invoked = []\<rparr>)"
proof -
  let ?w = "\<lparr>environ = (\<lambda>name. None),
      answers = (\<lambda>n. if n = 0 then Inr ''Intro to gRPC'' else if n = 1 then Inr ''Raft, explained'' else Inr ''DONE''),
      compile_raises = None, invoke_error = ''Expected dict'', completion = (\<lambda>r. Inr []),
      markup_error = (\<lambda>t. None)\<rparr>"
  let ?pre = "[''Intro to gRPC'', ''Raft, explained'']"
  have 1: "\<forall>k<length ?pre. answers ?w (length (asked io_init) + k) = Inr (?pre ! k) \<and> lower (?pre ! k) \<noteq> ''done''"
    by (simp add: io_init_def less_Suc_eq lower_def)
  have 2: "answers ?w (length (asked io_init) + length ?pre) = Inr ''DONE''"
    by (simp add: io_init_def)
  have 3: "lower ''DONE'' = ''done''"
    by (simp add: lower_def lower_char_def)
  from collect_history_collects [OF 1 2 3, of ArticleState_init] show ?thesis
    by (simp add: io_init_def ArticleState_init_def)
qed

section \<open>The sentinel\<close>

lemma collect_body_Break_iff:
  "fst (collect_body w s io) = Break \<longleftrightarrow>
     (\<exists>a. answers w (length (asked io)) = Inr a \<and> lower a = ''done'')"
  by (rule collect_body_cases [of w io])
    (auto simp: collect_body_raise collect_body_break collect_body_next)

lemma collect_body_Next:
  assumes "collect_body w s io = (Next s', io')"
  shows "\<exists>a. answers w (length (asked io)) = Inr a \<and> lower a \<noteq> ''done'' \<and>
     s' = s\<lparr>read_articles := read_articles s @ [a]\<rparr>"
  using assms
  by (rule_tac collect_body_cases [of w io])
    (auto simp: collect_body_raise collect_body_break collect_body_next)

lemma entered_set:
  assumes "\<forall>k<length pre. answers w (i + k) = Inr (pre ! k) \<and> lower (pre ! k) \<noteq> ''done''"
  shows "\<forall>a\<in>set pre. lower a \<noteq> ''done''"
  using assms by (auto simp: in_set_conv_nth)

text \<open>
  Claim C3. A pass through the loop breaks exactly when the answer, in lower case, is
  \<^verbatim>\<open>done\<close> (by \<open>lower_done_variants\<close>, one of the sixteen spellings of the word in
  capitals and small letters). The loop returns exactly when the prompts return some
  texts that are not the sentinel and then a sentinel; otherwise a prompt raises, or the
  loop runs forever (\<open>collect_loop_diverges\<close>). No text whose lower case is \<^verbatim>\<open>done\<close> is
  appended, neither by one pass nor by the whole loop.
\<close>

theorem collect_loop_sentinel_exact:
  "(fst (collect_body w s io) = Break \<longleftrightarrow>
      (\<exists>a. answers w (length (asked io)) = Inr a \<and> lower a = ''done'')) \<and>
   ((\<exists>s' io'. collect_loop w s io = Some (Inr s', io')) \<longleftrightarrow>
      (\<exists>pre d. (\<forall>k<length pre. answers w (length (asked io) + k) = Inr (pre ! k) \<and>
                  lower (pre ! k) \<noteq> ''done'') \<and>
         answers w (length (asked io) + length pre) = Inr d \<and> lower d = ''done'')) \<and>
   (\<forall>s' io'. collect_loop w s io = Some (Inr s', io') \<longrightarrow>
      (\<exists>pre. read_articles s' = read_articles s @ pre \<and> (\<forall>a\<in>set pre. lower a \<noteq> ''done''))) \<and>
   (\<forall>s' io'. collect_body w s io = (Next s', io') \<longrightarrow>
      (\<exists>a. read_articles s' = read_articles s @ [a] \<and> lower a \<noteq> ''done''))"
proof (intro conjI allI impI)
  show "fst (collect_body w s io) = Break \<longleftrightarrow>
      (\<exists>a. answers w (length (asked io)) = Inr a \<and> lower a = ''done'')"
    by (rule collect_body_Break_iff)
next
  show "(\<exists>s' io'. collect_loop w s io = Some (Inr s', io')) \<longleftrightarrow>
      (\<exists>pre d. (\<forall>k<length pre. answers w (length (asked io) + k) = Inr (pre ! k) \<and>
                  lower (pre ! k) \<noteq> ''done'') \<and>
         answers w (length (asked io) + length pre) = Inr d \<and> lower d = ''done'')"
  proof
    assume "\<exists>s' io'. collect_loop w s io = Some (Inr s', io')"
    then obtain s' io' where "collect_loop w s io = Some (Inr s', io')" by blast
    from collect_loop_returns [OF this]
    show "\<exists>pre d. (\<forall>k<length pre. answers w (length (asked io) + k) = Inr (pre ! k) \<and>
                  lower (pre ! k) \<noteq> ''done'') \<and>
         answers w (length (asked io) + length pre) = Inr d \<and> lower d = ''done''"
      by auto
  next
    assume "\<exists>pre d. (\<forall>k<length pre. answers w (length (asked io) + k) = Inr (pre ! k) \<and>
                  lower (pre ! k) \<noteq> ''done'') \<and>
         answers w (length (asked io) + length pre) = Inr d \<and> lower d = ''done''"
    then obtain pre d where
      "\<forall>k<length pre. answers w (length (asked io) + k) = Inr (pre ! k) \<and> lower (pre ! k) \<noteq> ''done''"
      "answers w (length (asked io) + length pre) = Inr d" "lower d = ''done''"
      by blast
    from collect_loop_sentinel [OF this]
    show "\<exists>s' io'. collect_loop w s io = Some (Inr s', io')" by blast
  qed
next
  fix s' io'
  assume "collect_loop w s io = Some (Inr s', io')"
  from collect_loop_returns [OF this] obtain pre where
    pre: "\<forall>k<length pre. answers w (length (asked io) + k) = Inr (pre ! k) \<and> lower (pre ! k) \<noteq> ''done''"
    and s': "s' = s\<lparr>read_articles := read_articles s @ pre\<rparr>"
    by auto
  from s' entered_set [OF pre]
  show "\<exists>pre. read_articles s' = read_articles s @ pre \<and> (\<forall>a\<in>set pre. lower a \<noteq> ''done'')"
    by auto
next
  fix s' io'
  assume "collect_body w s io = (Next s', io')"
  from collect_body_Next [OF this]
  show "\<exists>a. read_articles s' = read_articles s @ [a] \<and> lower a \<noteq> ''done''"
    by auto
qed

text \<open>One article, then \<^verbatim>\<open>dOnE\<close>: the loop returns, with nothing like the sentinel recorded.\<close>

theorem collect_loop_sentinel_exact_witness:
  "\<exists>s' io'. collect_loop
       \<lparr>environ = (\<lambda>name. None),
        answers = (\<lambda>n. if n = 0 then Inr ''gRPC'' else if n = 1 then Inr ''dOnE'' else Inr ''unread''),
        compile_raises = None, invoke_error = ''Expected dict'', completion = (\<lambda>r. Inr []),
      markup_error = (\<lambda>t. None)\<rparr> ArticleState_init io_init =
         Some (Inr s', io') \<and>
     (\<exists>pre. read_articles s' = read_articles ArticleState_init @ pre \<and>
        (\<forall>a\<in>set pre. lower a \<noteq> ''done''))"
proof -
  let ?w = "\<lparr>environ = (\<lambda>name. None),
        answers = (\<lambda>n. if n = 0 then Inr ''gRPC'' else if n = 1 then Inr ''dOnE'' else Inr ''unread''),
        compile_raises = None, invoke_error = ''Expected dict'', completion = (\<lambda>r. Inr []),
      markup_error = (\<lambda>t. None)\<rparr>"
  note exact = collect_loop_sentinel_exact [of ?w ArticleState_init io_init]
  have "(\<forall>k<length [''gRPC'']. answers ?w (length (asked io_init) + k) = Inr ([''gRPC''] ! k) \<and>
                  lower ([''gRPC''] ! k) \<noteq> ''done'') \<and>
         answers ?w (length (asked io_init) + length [''gRPC'']) = Inr ''dOnE'' \<and> lower ''dOnE'' = ''done''"
    by (simp add: io_init_def lower_def lower_char_def)
  then have "\<exists>pre d. (\<forall>k<length pre. answers ?w (length (asked io_init) + k) = Inr (pre ! k) \<and>
                  lower (pre ! k) \<noteq> ''done'') \<and>
         answers ?w (length (asked io_init) + length pre) = Inr d \<and> lower d = ''done''"
    by (intro exI)
  with exact [THEN conjunct2, THEN conjunct1]
  obtain s' io' where run: "collect_loop ?w ArticleState_init io_init = Some (Inr s', io')"
    by blast
  from exact [THEN conjunct2, THEN conjunct2, THEN conjunct1, rule_format, OF run] run
  show ?thesis by blast
qed

section \<open>The state during collection\<close>

lemma collect_reach_frame:
  assumes "collect_reach w c c'"
  shows "recommendations (fst c') = recommendations (fst c) \<and>
         prefix (read_articles (fst c)) (read_articles (fst c'))"
  using assms
proof (induction rule: collect_reach.induct)
  case start
  show ?case by simp
next
  case (pass state io state' io')
  from collect_body_Next [OF pass.hyps(2)] obtain a where
    "state' = state\<lparr>read_articles := read_articles state @ [a]\<rparr>"
    by blast
  with pass.IH show ?case
    by (auto intro: prefix_order.trans)
qed

lemma collect_reach_first:
  assumes "collect_reach w c1 c2" and "collect_body w state io = (Next (fst c1), snd c1)"
  shows "collect_reach w (state, io) c2"
  using assms
proof (induction rule: collect_reach.induct)
  case start
  have "collect_reach w (state, io) (state, io)" by (rule collect_reach.start)
  from collect_reach.pass [OF this, of "fst c1" "snd c1"] start show ?case by simp
next
  case (pass s1 io1 s2 io2)
  from collect_reach.pass [OF pass.IH [OF pass.prems] pass.hyps(2)] show ?case .
qed

lemma collect_loop_reach:
  assumes "collect_loop w state io = Some y"
  shows "\<forall>state'. fst y = Inr state' \<longrightarrow> (\<exists>io'. collect_reach w (state, io) (state', io'))"
  using assms
proof (induct w state io y rule: collect_loop.raw_induct [rotated 1, consumes 1, case_names step])
  case (step loop w s io y)
  show ?case
  proof (rule collect_body_cases [of w io])
    fix e assume "answers w (length (asked io)) = Inl e"
    with step(2) show ?thesis by (auto simp: collect_body_raise)
  next
    fix a assume "answers w (length (asked io)) = Inr a" "lower a = ''done''"
    with step(2) have "fst y = Inr s" by (auto simp: collect_body_break)
    then show ?thesis by (auto intro: collect_reach.start)
  next
    fix a assume a: "answers w (length (asked io)) = Inr a" "lower a \<noteq> ''done''"
    let ?s = "s\<lparr>read_articles := read_articles s @ [a]\<rparr>"
    let ?io = "io\<lparr>asked := asked io @ [ASK_PROMPT]\<rparr>"
    from a step(2) have "loop w ?s ?io = Some y" by (simp add: collect_body_next)
    from step(1) [OF this] have
      ih: "\<forall>state'. fst y = Inr state' \<longrightarrow> (\<exists>io'. collect_reach w (?s, ?io) (state', io'))" .
    show ?thesis
    proof (intro allI impI)
      fix state' assume "fst y = Inr state'"
      with ih obtain io' where "collect_reach w (?s, ?io) (state', io')" by blast
      from collect_reach_first [OF this, of s io] collect_body_next [OF a, of s]
      show "\<exists>io'. collect_reach w (s, io) (state', io')" by auto
    qed
  qed
qed

text \<open>
  Claim C7. The fresh state has both lists empty. At every state the collection loop
  passes through from the fresh state, \<open>recommendations\<close> is empty; every later state
  of the loop has the earlier \<open>read_articles\<close> as a prefix, and a pass that goes on
  appends exactly one entry. The state \<^verbatim>\<open>collect_history\<close> returns, which is the state
  the generation stage receives, is one of these states: its \<open>recommendations\<close> is
  empty.
\<close>

theorem session_state_invariant:
  "recommendations ArticleState_init = [] \<and> read_articles ArticleState_init = [] \<and>
   (\<forall>s1 io1. collect_reach w (ArticleState_init, io) (s1, io1) \<longrightarrow>
      recommendations s1 = [] \<and>
      (\<forall>s2 io2. collect_reach w (s1, io1) (s2, io2) \<longrightarrow>
         prefix (read_articles s1) (read_articles s2)) \<and>
      (\<forall>s2 io2. collect_body w s1 io1 = (Next s2, io2) \<longrightarrow>
         (\<exists>a. read_articles s2 = read_articles s1 @ [a]) \<and> recommendations s2 = [])) \<and>
   (\<forall>s' io'. collect_history w ArticleState_init io = Some (Inr s', io') \<longrightarrow>
      recommendations s' = [] \<and>
      (\<exists>io''. collect_reach w (ArticleState_init, console_print COLLECT_BANNER io) (s', io'')))"
proof (intro conjI allI impI)
  show "recommendations ArticleState_init = []" "read_articles ArticleState_init = []"
    by (simp_all add: ArticleState_init_def)
next
  fix s1 io1
  assume "collect_reach w (ArticleState_init, io) (s1, io1)"
  from collect_reach_frame [OF this] show empty: "recommendations s1 = []"
    by (simp add: ArticleState_init_def)
  {
    fix s2 io2
    assume "collect_reach w (s1, io1) (s2, io2)"
    from collect_reach_frame [OF this]
    show "prefix (read_articles s1) (read_articles s2)" by simp
  }
  {
    fix s2 io2
    assume "collect_body w s1 io1 = (Next s2, io2)"
    from collect_body_Next [OF this] empty
    show "\<exists>a. read_articles s2 = read_articles s1 @ [a]" and "recommendations s2 = []"
      by auto
  }
next
  fix s' io'
  assume "collect_history w ArticleState_init io = Some (Inr s', io')"
  then have "collect_loop w ArticleState_init (console_print COLLECT_BANNER io) = Some (Inr s', io')"
    by (simp add: collect_history_def)
  from collect_loop_reach [OF this]
  obtain io'' where
    reach: "collect_reach w (ArticleState_init, console_print COLLECT_BANNER io) (s', io'')"
    by auto
  then show "\<exists>io''. collect_reach w (ArticleState_init, console_print COLLECT_BANNER io) (s', io'')"
    by blast
  from collect_reach_frame [OF reach] show "recommendations s' = []"
    by (simp add: ArticleState_init_def)
qed

text \<open>Two articles entered: the states after the first and the second pass.\<close>

theorem session_state_invariant_witness:
  "collect_reach
     \<lparr>environ = (\<lambda>name. None),
      answers = (\<lambda>n. if n = 0 then Inr ''gRPC'' else if n = 1 then Inr ''Raft'' else Inr ''done''),
      compile_raises = None, invoke_error = ''Expected dict'', completion = (\<lambda>r. Inr []),
      markup_error = (\<lambda>t. None)\<rparr>
     (ArticleState_init, io_init)
     (\<lparr>read_articles = [''gRPC'', ''Raft''], recommendations = []\<rparr>,
      \<lparr>printed = [], asked = [ASK_PROMPT, ASK_PROMPT], invoked = []\<rparr>) \<and>
   recommendations \<lparr>read_articles = [''gRPC'', ''Raft''], recommendations = []\<rparr> = [] \<and>
   prefix [''gRPC''] [''gRPC'', ''Raft'']"
proof -
  let ?w = "\<lparr>environ = (\<lambda>name. None),
      answers = (\<lambda>n. if n = 0 then Inr ''gRPC'' else if n = 1 then Inr ''Raft'' else Inr ''done''),
      compile_raises = None, invoke_error = ''Expected dict'', completion = (\<lambda>r. Inr []),
      markup_error = (\<lambda>t. None)\<rparr>"
  let ?s1 = "\<lparr>read_articles = [''gRPC''], recommendations = []\<rparr>"
  let ?io1 = "\<lparr>printed = [], asked = [ASK_PROMPT], invoked = []\<rparr>"
  let ?s2 = "\<lparr>read_articles = [''gRPC'', ''Raft''], recommendations = []\<rparr>"
  let ?io2 = "\<lparr>printed = [], asked = [ASK_PROMPT, ASK_PROMPT], invoked = []\<rparr>"
  have body1: "collect_body ?w ArticleState_init io_init = (Next ?s1, ?io1)"
    by (simp add: collect_body_def Prompt_ask_def io_init_def ArticleState_init_def lower_def
        lower_char_def)
  have body2: "collect_body ?w ?s1 ?io1 = (Next ?s2, ?io2)"
    by (simp add: collect_body_def Prompt_ask_def lower_def lower_char_def)
  have start: "collect_reach ?w (ArticleState_init, io_init) (ArticleState_init, io_init)"
    by (rule collect_reach.start)
  have reach1: "collect_reach ?w (ArticleState_init, io_init) (?s1, ?io1)"
    by (rule collect_reach.pass [OF start body1])
  have reach2: "collect_reach ?w (ArticleState_init, io_init) (?s2, ?io2)"
    by (rule collect_reach.pass [OF reach1 body2])
  have later: "collect_reach ?w (?s1, ?io1) (?s2, ?io2)"
    by (rule collect_reach.pass [OF collect_reach.start body2])
  note inv = session_state_invariant [of ?w io_init, THEN conjunct2, THEN conjunct2, THEN conjunct1]
  from inv [rule_format, OF reach1, THEN conjunct2, THEN conjunct1, rule_format, OF later]
    inv [rule_format, OF reach2, THEN conjunct1] reach2
  show ?thesis by simp
qed

section \<open>The generation stage\<close>

lemma split_blank_lines: "split text ''\<newline>\<newline>'' = Inr (split_scan ''\<newline>\<newline>'' [] text)"
  by (simp add: split_def)

lemma generate_recommendations_run:
  "generate_recommendations w state io =
     (case completion w \<lparr>model = ''gpt-3.5-turbo'',
                          messages = format_messages (join ''\<newline>'' (read_articles state))\<rparr> of
        Inl e \<Rightarrow>
          Some (Inl e, io\<lparr>invoked := invoked io @ [\<lparr>model = ''gpt-3.5-turbo'',
                  messages = format_messages (join ''\<newline>'' (read_articles state))\<rparr>]\<rparr>)
      | Inr text \<Rightarrow>
          Some (Inr (state\<lparr>recommendations := split_scan ''\<newline>\<newline>'' [] text\<rparr>),
                io\<lparr>invoked := invoked io @ [\<lparr>model = ''gpt-3.5-turbo'',
                  messages = format_messages (join ''\<newline>'' (read_articles state))\<rparr>]\<rparr>))"
  unfolding generate_recommendations_def chain_invoke_def split_blank_lines
  by (simp add: Let_def split: sum.splits)

text \<open>
  Claim C9. Whatever text the endpoint returns for the request, the generation stage
  returns the state it was given with \<open>recommendations\<close> replaced by the split text:
  \<open>read_articles\<close> and every other part of the state are as before. The stage always
  returns or raises; when it raises no state is returned.
\<close>

theorem generate_recommendations_frame:
  "(\<forall>text. completion w \<lparr>model = ''gpt-3.5-turbo'',
                messages = format_messages (join ''\<newline>'' (read_articles state))\<rparr> = Inr text \<longrightarrow>
      (\<exists>parts io'. split text ''\<newline>\<newline>'' = Inr parts \<and>
         generate_recommendations w state io = Some (Inr (state\<lparr>recommendations := parts\<rparr>), io'))) \<and>
   (\<forall>state' io'. generate_recommendations w state io = Some (Inr state', io') \<longrightarrow>
      read_articles state' = read_articles state \<and>
      state' = state\<lparr>recommendations := recommendations state'\<rparr>) \<and>
   generate_recommendations w state io \<noteq> None"
  unfolding generate_recommendations_run split_blank_lines
  by (auto split: sum.splits)

text \<open>A state with two articles and an old recommendation; the endpoint returns two blocks.\<close>

theorem generate_recommendations_frame_witness:
  "generate_recommendations
     \<lparr>environ = (\<lambda>name. None), answers = (\<lambda>n. Inr ''done''), compile_raises = None, invoke_error = ''Expected dict'',
      completion = (\<lambda>r. Inr ''A\<newline>\<newline>B''),
      markup_error = (\<lambda>t. None)\<rparr>
     \<lparr>read_articles = [''Intro to gRPC'', ''Raft''], recommendations = [''old'']\<rparr> io_init =
   Some (Inr \<lparr>read_articles = [''Intro to gRPC'', ''Raft''], recommendations = [''A'', ''B'']\<rparr>,
         \<lparr>printed = [], asked = [],
          invoked = [\<lparr>model = ''gpt-3.5-turbo'',
                  messages = format_messages ''Intro to gRPC\<newline>Raft''\<rparr>]\<rparr>)"
proof -
  let ?w = "\<lparr>environ = (\<lambda>name. None), answers = (\<lambda>n. Inr ''done''), compile_raises = None, invoke_error = ''Expected dict'',
      completion = (\<lambda>r. Inr ''A\<newline>\<newline>B''),
      markup_error = (\<lambda>t. None)\<rparr>"
  let ?s = "\<lparr>read_articles = [''Intro to gRPC'', ''Raft''], recommendations = [''old'']\<rparr>"
  note frame = generate_recommendations_frame [of ?w ?s io_init]
  have "completion ?w \<lparr>model = ''gpt-3.5-turbo'',
       messages = format_messages (join ''\<newline>'' (read_articles ?s))\<rparr> = Inr ''A\<newline>\<newline>B''"
    by simp
  with frame [THEN conjunct1] obtain parts io' where
    parts: "split ''A\<newline>\<newline>B'' ''\<newline>\<newline>'' = Inr parts"
    and run: "generate_recommendations ?w ?s io_init = Some (Inr (?s\<lparr>recommendations := parts\<rparr>), io')"
    by blast
  from parts have "parts = [''A'', ''B'']"
    by (simp add: split_def)
  moreover have "io' = \<lparr>printed = [], asked = [],
          invoked = [\<lparr>model = ''gpt-3.5-turbo'',
                  messages = format_messages ''Intro to gRPC\<newline>Raft''\<rparr>]\<rparr>"
    using run by (simp add: generate_recommendations_run io_init_def)
  ultimately show ?thesis using run by simp
qed

section \<open>Facts about printing\<close>

lemma markup_rejects_plain: "CHR ''['' \<notin> set t \<Longrightarrow> markup_rejects w t = None"
  by (simp add: markup_rejects_def)

lemma console_print_data_accepts:
  "markup_rejects w r = None \<Longrightarrow>
   console_print_data w r io = (None, io\<lparr>printed := printed io @ [r]\<rparr>)"
  by (simp add: console_print_data_def)

lemma console_print_data_rejects:
  "markup_rejects w r = Some m \<Longrightarrow> console_print_data w r io = (Some (Exception m), io)"
  by (simp add: console_print_data_def)

lemma display_loop_accepts:
  "\<forall>x\<in>set rs. markup_rejects w x = None \<Longrightarrow>
   display_loop w (int n) rs io =
     (None, io\<lparr>printed := printed io @
        concat (map (\<lambda>(k, r). [label (int k), r]) (enumerate n rs))\<rparr>)"
proof (induction rs arbitrary: n io)
  case Nil
  show ?case by simp
next
  case (Cons r rs)
  from Cons.prems have r: "markup_rejects w r = None" and rs: "\<forall>x\<in>set rs. markup_rejects w x = None"
    by simp_all
  have step: "display_loop w (int n + 1) rs io' =
      (None, io'\<lparr>printed := printed io' @
        concat (map (\<lambda>(k, r). [label (int k), r]) (enumerate (Suc n) rs))\<rparr>)" for io'
    using Cons.IH [OF rs, of "Suc n" io'] by (simp add: add.commute)
  show ?case
    unfolding display_loop.simps console_print_data_accepts [OF r] prod.case option.case step
    by (simp add: console_print_def)
qed

lemma display_loop_rejects:
  "\<forall>x\<in>set pre. markup_rejects w x = None \<Longrightarrow> markup_rejects w r = Some m \<Longrightarrow>
   display_loop w (int n) (pre @ r # post) io =
     (Some (Exception m), io\<lparr>printed := printed io @
        concat (map (\<lambda>(k, r). [label (int k), r]) (enumerate n pre)) @
        [label (int (n + length pre))]\<rparr>)"
proof (induction pre arbitrary: n io)
  case Nil
  then show ?case
    by (simp add: console_print_data_rejects console_print_def)
next
  case (Cons p pre)
  from Cons.prems have p: "markup_rejects w p = None" and pre: "\<forall>x\<in>set pre. markup_rejects w x = None"
    by simp_all
  have step: "display_loop w (int n + 1) (pre @ r # post) io' =
     (Some (Exception m), io'\<lparr>printed := printed io' @
        concat (map (\<lambda>(k, r). [label (int k), r]) (enumerate (Suc n) pre)) @
        [label (int (Suc n + length pre))]\<rparr>)" for io'
    using Cons.IH [OF pre Cons.prems(2), of "Suc n" io'] by (simp add: add.commute)
  show ?case
    unfolding append_Cons display_loop.simps console_print_data_accepts [OF p] prod.case option.case step
    by (simp add: console_print_def)
qed

lemma display_results_accepts:
  assumes "\<forall>x\<in>set (recommendations state). markup_rejects w x = None"
  shows "display_results w state io =
     Some (Inr state,
           io\<lparr>printed := printed io @ RESULTS_BANNER # labelled_sections (recommendations state)\<rparr>)"
  using display_loop_accepts [OF assms, of 1 "console_print RESULTS_BANNER io"]
  by (simp add: display_results_def labelled_sections_def console_print_def)

lemma display_results_rejects:
  assumes "recommendations state = pre @ r # post"
    and "\<forall>x\<in>set pre. markup_rejects w x = None" and "markup_rejects w r = Some m"
  shows "display_results w state io =
     Some (Inl (Exception m),
           io\<lparr>printed := printed io @ RESULTS_BANNER # labelled_sections pre @
                  [label (int (length pre) + 1)]\<rparr>)"
  using display_loop_rejects [OF assms(2,3), of 1 post "console_print RESULTS_BANNER io"]
  by (simp add: display_results_def labelled_sections_def console_print_def assms(1) add.commute)


lemma display_loop_appends:
  "\<exists>e out. \<forall>io. display_loop w i rs io = (e, io\<lparr>printed := printed io @ out\<rparr>)"
proof (induction rs arbitrary: i)
  case Nil
  have "\<forall>io. display_loop w i [] io = (None, io\<lparr>printed := printed io @ []\<rparr>)"
    by simp
  then show ?case by blast
next
  case (Cons r rs)
  show ?case
  proof (cases "markup_rejects w r")
    case (Some m)
    then have "\<forall>io. display_loop w i (r # rs) io =
        (Some (Exception m), io\<lparr>printed := printed io @ [label i]\<rparr>)"
      by (simp add: console_print_data_rejects console_print_def)
    then show ?thesis by blast
  next
    case None
    from Cons.IH [of "i + 1"] obtain e out where
      ih: "\<forall>io. display_loop w (i + 1) rs io = (e, io\<lparr>printed := printed io @ out\<rparr>)"
      by blast
    have "\<forall>io. display_loop w i (r # rs) io =
        (e, io\<lparr>printed := printed io @ (label i # r # out)\<rparr>)"
      by (simp add: console_print_data_accepts [OF None] console_print_def ih)
    then show ?thesis by blast
  qed
qed


section \<open>The printed sections\<close>

lemma length_labelled_sections: "length (labelled_sections recs) = 2 * length recs"
  unfolding labelled_sections_def
  by (induction recs rule: rev_induct) (simp_all add: enumerate_append_eq)

lemma nth_labelled_sections:
  assumes "k < length recs"
  shows "labelled_sections recs ! (2 * k) = label (int k + 1) \<and>
         labelled_sections recs ! (2 * k + 1) = recs ! k"
  using assms
proof (induction recs arbitrary: k rule: rev_induct)
  case Nil
  then show ?case by simp
next
  case (snoc r recs)
  have app: "labelled_sections (recs @ [r]) = labelled_sections recs @ [label (int (length recs) + 1), r]"
    by (simp add: labelled_sections_def enumerate_append_eq add.commute)
  show ?case
  proof (cases "k < length recs")
    case True
    then have "2 * k < length (labelled_sections recs)" "2 * k + 1 < length (labelled_sections recs)"
      by (simp_all add: length_labelled_sections)
    with snoc.IH [OF True] True show ?thesis
      by (simp add: app nth_append)
  next
    case False
    with snoc.prems have k: "k = length recs" by simp
    show ?thesis
      by (simp add: app k nth_append length_labelled_sections)
  qed
qed

text \<open>
  Claim C4. For a list whose entries the console accepts, \<^verbatim>\<open>display_results\<close> returns the
  state as it is and prints, after its banner, two lines for each recommendation, in
  list order: entry number \<open>k\<close> (from 0) gives the label with the ordinal \<open>k + 1\<close> in
  decimal and then the entry itself, handed to the console as it is, and nothing else
  is printed; for a list of two blocks these are the label with 1, the first block, the
  label with 2 and the second block. The claim says this of every list, and there the
  code fails it: at the first entry the console rejects, \<^verbatim>\<open>console.print\<close> raises
  after the label of that entry has been printed, the stage ends with the exception,
  and neither that entry nor any later one is printed.
\<close>

theorem display_results_labelled:
  "((\<forall>x\<in>set (recommendations state). markup_rejects w x = None) \<longrightarrow>
      display_results w state io =
        Some (Inr state,
              io\<lparr>printed := printed io @ RESULTS_BANNER # labelled_sections (recommendations state)\<rparr>)) \<and>
   (\<forall>pre r post m.
      recommendations state = pre @ r # post \<and> (\<forall>x\<in>set pre. markup_rejects w x = None) \<and>
      markup_rejects w r = Some m \<longrightarrow>
      display_results w state io =
        Some (Inl (Exception m),
              io\<lparr>printed := printed io @ RESULTS_BANNER # labelled_sections pre @
                     [LABEL_PRE @ str (int (length pre) + 1) @ LABEL_POST]\<rparr>)) \<and>
   length (labelled_sections recs) = 2 * length recs \<and>
   (\<forall>k<length recs.
      labelled_sections recs ! (2 * k) = LABEL_PRE @ str (int k + 1) @ LABEL_POST \<and>
      labelled_sections recs ! (2 * k + 1) = recs ! k) \<and>
   labelled_sections [a, b] = [LABEL_PRE @ ''1'' @ LABEL_POST, a, LABEL_PRE @ ''2'' @ LABEL_POST, b]"
proof (intro conjI allI impI)
  assume "\<forall>x\<in>set (recommendations state). markup_rejects w x = None"
  then show "display_results w state io =
        Some (Inr state,
              io\<lparr>printed := printed io @ RESULTS_BANNER # labelled_sections (recommendations state)\<rparr>)"
    by (rule display_results_accepts)
next
  fix pre r post m
  assume "recommendations state = pre @ r # post \<and> (\<forall>x\<in>set pre. markup_rejects w x = None) \<and>
      markup_rejects w r = Some m"
  then have "recommendations state = pre @ r # post" "\<forall>x\<in>set pre. markup_rejects w x = None"
    "markup_rejects w r = Some m"
    by simp_all
  from display_results_rejects [OF this]
  show "display_results w state io =
        Some (Inl (Exception m),
              io\<lparr>printed := printed io @ RESULTS_BANNER # labelled_sections pre @
                     [LABEL_PRE @ str (int (length pre) + 1) @ LABEL_POST]\<rparr>)"
    by (simp add: label_def)
next
  show "length (labelled_sections recs) = 2 * length recs"
    by (rule length_labelled_sections)
  show "labelled_sections [a, b] = [LABEL_PRE @ ''1'' @ LABEL_POST, a, LABEL_PRE @ ''2'' @ LABEL_POST, b]"
    by (simp add: labelled_sections_def label_def str_small)
next
  fix k assume "k < length recs"
  from nth_labelled_sections [OF this]
  show "labelled_sections recs ! (2 * k) = LABEL_PRE @ str (int k + 1) @ LABEL_POST"
    and "labelled_sections recs ! (2 * k + 1) = recs ! k"
    by (simp_all add: label_def)
qed

text \<open>
  Three entries, the second with a closing tag that no tag opens: the presenter stops
  after the second label. Two entries without markup: both are printed.
\<close>

theorem display_results_labelled_witness:
  "display_results
     \<lparr>environ = (\<lambda>name. None), answers = (\<lambda>n. Inr ''done''), compile_raises = None,
      invoke_error = ''Expected dict'', completion = (\<lambda>r. Inr []),
      markup_error = (\<lambda>t. if t = ''see [/b] here''
        then Some ''closing tag [/b] at position 4 does not match any open tag'' else None)\<rparr>
     \<lparr>read_articles = [], recommendations = [''first'', ''see [/b] here'', ''later'']\<rparr> io_init =
   Some (Inl (Exception ''closing tag [/b] at position 4 does not match any open tag''),
         \<lparr>printed = [RESULTS_BANNER, LABEL_PRE @ ''1'' @ LABEL_POST, ''first'',
                      LABEL_PRE @ ''2'' @ LABEL_POST],
          asked = [], invoked = []\<rparr>) \<and>
   display_results
     \<lparr>environ = (\<lambda>name. None), answers = (\<lambda>n. Inr ''done''), compile_raises = None,
      invoke_error = ''Expected dict'', completion = (\<lambda>r. Inr []),
      markup_error = (\<lambda>t. if t = ''see [/b] here''
        then Some ''closing tag [/b] at position 4 does not match any open tag'' else None)\<rparr>
     \<lparr>read_articles = [], recommendations = [''Title A'', ''Title B'']\<rparr> io_init =
   Some (Inr \<lparr>read_articles = [], recommendations = [''Title A'', ''Title B'']\<rparr>,
         \<lparr>printed = [RESULTS_BANNER, LABEL_PRE @ ''1'' @ LABEL_POST, ''Title A'',
                      LABEL_PRE @ ''2'' @ LABEL_POST, ''Title B''],
          asked = [], invoked = []\<rparr>)"
proof -
  let ?w = "\<lparr>environ = (\<lambda>name. None), answers = (\<lambda>n. Inr ''done''), compile_raises = None,
      invoke_error = ''Expected dict'', completion = (\<lambda>r. Inr []),
      markup_error = (\<lambda>t. if t = ''see [/b] here''
        then Some ''closing tag [/b] at position 4 does not match any open tag'' else None)\<rparr>"
  let ?bad = "\<lparr>read_articles = [], recommendations = [''first'', ''see [/b] here'', ''later'']\<rparr>"
  let ?good = "\<lparr>read_articles = [], recommendations = [''Title A'', ''Title B'']\<rparr>"
  have good: "\<forall>x\<in>set (recommendations ?good). markup_rejects ?w x = None"
    by (simp add: markup_rejects_def)
  have bad: "recommendations ?bad = [''first''] @ ''see [/b] here'' # [''later''] \<and>
      (\<forall>x\<in>set [''first'']. markup_rejects ?w x = None) \<and>
      markup_rejects ?w ''see [/b] here'' =
        Some ''closing tag [/b] at position 4 does not match any open tag''"
    by (simp add: markup_rejects_def)
  from display_results_labelled [of ?good ?w io_init "[]" "''Title A''" "''Title B''",
      THEN conjunct1, THEN mp, OF good]
    display_results_labelled [of ?bad ?w io_init "[]" "''Title A''" "''Title B''",
      THEN conjunct2, THEN conjunct1, THEN spec, THEN spec, THEN spec, THEN spec,
      THEN mp, OF bad]
    display_results_labelled [of ?good ?w io_init "[]" "''Title A''" "''Title B''",
      THEN conjunct2, THEN conjunct2, THEN conjunct2, THEN conjunct2]
  show ?thesis
    by (simp add: io_init_def str_small labelled_sections_def label_def)
qed

section \<open>Printing twice\<close>

lemma display_results_appends:
  "\<exists>e out. \<forall>state io. recommendations state = recs \<longrightarrow>
     display_results w state io =
       Some (case e of None \<Rightarrow> Inr state | Some x \<Rightarrow> Inl x, io\<lparr>printed := printed io @ out\<rparr>)"
proof -
  from display_loop_appends [of w 1 recs] obtain e out where
    loop: "\<forall>io. display_loop w 1 recs io = (e, io\<lparr>printed := printed io @ out\<rparr>)"
    by blast
  have "\<forall>state io. recommendations state = recs \<longrightarrow>
     display_results w state io =
       Some (case e of None \<Rightarrow> Inr state | Some x \<Rightarrow> Inl x,
             io\<lparr>printed := printed io @ (RESULTS_BANNER # out)\<rparr>)"
    by (cases e) (simp_all add: display_results_def loop console_print_def)
  then show ?thesis by blast
qed

text \<open>
  Claim C6. What a run of \<^verbatim>\<open>display_results\<close> prints, and whether it returns the state or
  ends with an exception of the console, is fixed by the recommendation list: it does
  not depend on the rest of the state or on what the console holds. So a second run on
  the same list prints the same lines again and ends in the same way.
\<close>

theorem display_results_repeatable:
  "\<exists>e out. \<forall>state io. recommendations state = recs \<longrightarrow>
     display_results w state io =
       Some (case e of None \<Rightarrow> Inr state | Some x \<Rightarrow> Inl x, io\<lparr>printed := printed io @ out\<rparr>) \<and>
     display_results w state (io\<lparr>printed := printed io @ out\<rparr>) =
       Some (case e of None \<Rightarrow> Inr state | Some x \<Rightarrow> Inl x,
             io\<lparr>printed := printed io @ out @ out\<rparr>)"
proof -
  from display_results_appends [of recs w] obtain e out where
    run: "\<forall>state io. recommendations state = recs \<longrightarrow>
     display_results w state io =
       Some (case e of None \<Rightarrow> Inr state | Some x \<Rightarrow> Inl x, io\<lparr>printed := printed io @ out\<rparr>)"
    by blast
  have "\<forall>state io. recommendations state = recs \<longrightarrow>
     display_results w state io =
       Some (case e of None \<Rightarrow> Inr state | Some x \<Rightarrow> Inl x, io\<lparr>printed := printed io @ out\<rparr>) \<and>
     display_results w state (io\<lparr>printed := printed io @ out\<rparr>) =
       Some (case e of None \<Rightarrow> Inr state | Some x \<Rightarrow> Inl x,
             io\<lparr>printed := printed io @ out @ out\<rparr>)"
  proof (intro allI impI conjI)
    fix state :: ArticleState and io :: io
    assume recs: "recommendations state = recs"
    from run [rule_format, OF recs, of io]
    show "display_results w state io =
       Some (case e of None \<Rightarrow> Inr state | Some x \<Rightarrow> Inl x, io\<lparr>printed := printed io @ out\<rparr>)" .
    from run [rule_format, OF recs, of "io\<lparr>printed := printed io @ out\<rparr>"]
    show "display_results w state (io\<lparr>printed := printed io @ out\<rparr>) =
       Some (case e of None \<Rightarrow> Inr state | Some x \<Rightarrow> Inl x,
             io\<lparr>printed := printed io @ out @ out\<rparr>)"
      by simp
  qed
  then show ?thesis by blast
qed

text \<open>Two runs on a list whose second entry the console rejects.\<close>

theorem display_results_repeatable_witness:
  "\<exists>e out.
     display_results
       \<lparr>environ = (\<lambda>name. None), answers = (\<lambda>n. Inr ''done''), compile_raises = None,
        invoke_error = ''Expected dict'', completion = (\<lambda>r. Inr []),
        markup_error = (\<lambda>t. if t = ''see [/b] here''
          then Some ''closing tag [/b] at position 4 does not match any open tag'' else None)\<rparr>
       \<lparr>read_articles = [], recommendations = [''first'', ''see [/b] here'', ''later'']\<rparr> io_init =
       Some (case e of None \<Rightarrow> Inr \<lparr>read_articles = [], recommendations = [''first'', ''see [/b] here'', ''later'']\<rparr>
             | Some x \<Rightarrow> Inl x,
             io_init\<lparr>printed := printed io_init @ out\<rparr>) \<and>
     display_results
       \<lparr>environ = (\<lambda>name. None), answers = (\<lambda>n. Inr ''done''), compile_raises = None,
        invoke_error = ''Expected dict'', completion = (\<lambda>r. Inr []),
        markup_error = (\<lambda>t. if t = ''see [/b] here''
          then Some ''closing tag [/b] at position 4 does not match any open tag'' else None)\<rparr>
       \<lparr>read_articles = [], recommendations = [''first'', ''see [/b] here'', ''later'']\<rparr>
       (io_init\<lparr>printed := printed io_init @ out\<rparr>) =
       Some (case e of None \<Rightarrow> Inr \<lparr>read_articles = [], recommendations = [''first'', ''see [/b] here'', ''later'']\<rparr>
             | Some x \<Rightarrow> Inl x,
             io_init\<lparr>printed := printed io_init @ out @ out\<rparr>)"
proof -
  let ?w = "\<lparr>environ = (\<lambda>name. None), answers = (\<lambda>n. Inr ''done''), compile_raises = None,
        invoke_error = ''Expected dict'', completion = (\<lambda>r. Inr []),
        markup_error = (\<lambda>t. if t = ''see [/b] here''
          then Some ''closing tag [/b] at position 4 does not match any open tag'' else None)\<rparr>"
  let ?s = "\<lparr>read_articles = [], recommendations = [''first'', ''see [/b] here'', ''later'']\<rparr>"
  from display_results_repeatable [of "[''first'', ''see [/b] here'', ''later'']" ?w]
  obtain e out where
    run: "\<forall>state io. recommendations state = [''first'', ''see [/b] here'', ''later''] \<longrightarrow>
     display_results ?w state io =
       Some (case e of None \<Rightarrow> Inr state | Some x \<Rightarrow> Inl x, io\<lparr>printed := printed io @ out\<rparr>) \<and>
     display_results ?w state (io\<lparr>printed := printed io @ out\<rparr>) =
       Some (case e of None \<Rightarrow> Inr state | Some x \<Rightarrow> Inl x,
             io\<lparr>printed := printed io @ out @ out\<rparr>)"
    by blast
  have "recommendations ?s = [''first'', ''see [/b] here'', ''later'']" by simp
  with run [THEN spec, THEN spec, of ?s io_init] show ?thesis by blast
qed

section \<open>At least one recommendation\<close>




section \<open>The end-to-end scenario\<close>

text \<open>
  Claim C5. The generation stage stores the completion split at \<^verbatim>\<open>"\n\n"\<close>
  (\<open>generate_recommendations_run\<close>). In the scenario of the specification, run stage by
  stage on the fresh state: with the one article and then \<^verbatim>\<open>done\<close> entered, the collector
  returns the one article; with the endpoint answering the request for that history
  with \<^verbatim>\<open>"A\n\nB\n\nC"\<close>, the generation stage returns the recommendations A, B and C; and
  the presenter, run on that state, prints after its banner the labels with 1, 2 and 3,
  each followed by its block. \<open>LABEL_PRE\<close> ends with the word of the label and a space,
  so the labels read as the word and the ordinal. The stages are run here as the
  functions they are: \<^verbatim>\<open>main\<close> does not reach them (see \<open>invoke\<close>).
\<close>

theorem end_to_end_scenario:
  assumes "answers w 0 = Inr ''Intro to gRPC: covers unary/streaming RPCs''"
    and "answers w 1 = Inr ''done''"
    and "completion w \<lparr>model = ''gpt-3.5-turbo'',
           messages = format_messages ''Intro to gRPC: covers unary/streaming RPCs''\<rparr> =
         Inr ''A\<newline>\<newline>B\<newline>\<newline>C''"
  shows "collect_history w ArticleState_init io_init =
       Some (Inr \<lparr>read_articles = [''Intro to gRPC: covers unary/streaming RPCs''],
                   recommendations = []\<rparr>,
             \<lparr>printed = [COLLECT_BANNER], asked = [ASK_PROMPT, ASK_PROMPT], invoked = []\<rparr>) \<and>
     generate_recommendations w
         \<lparr>read_articles = [''Intro to gRPC: covers unary/streaming RPCs''],
                   recommendations = []\<rparr>
         \<lparr>printed = [COLLECT_BANNER], asked = [ASK_PROMPT, ASK_PROMPT], invoked = []\<rparr> =
       Some (Inr \<lparr>read_articles = [''Intro to gRPC: covers unary/streaming RPCs''],
                   recommendations = [''A'', ''B'', ''C'']\<rparr>,
             \<lparr>printed = [COLLECT_BANNER], asked = [ASK_PROMPT, ASK_PROMPT],
               invoked = [\<lparr>model = ''gpt-3.5-turbo'',
                 messages = format_messages ''Intro to gRPC: covers unary/streaming RPCs''\<rparr>]\<rparr>) \<and>
     display_results w
         \<lparr>read_articles = [''Intro to gRPC: covers unary/streaming RPCs''],
                   recommendations = [''A'', ''B'', ''C'']\<rparr>
         \<lparr>printed = [COLLECT_BANNER], asked = [ASK_PROMPT, ASK_PROMPT],
               invoked = [\<lparr>model = ''gpt-3.5-turbo'',
                 messages = format_messages ''Intro to gRPC: covers unary/streaming RPCs''\<rparr>]\<rparr> =
       Some (Inr \<lparr>read_articles = [''Intro to gRPC: covers unary/streaming RPCs''],
                   recommendations = [''A'', ''B'', ''C'']\<rparr>,
             \<lparr>printed = [COLLECT_BANNER, RESULTS_BANNER,
                          LABEL_PRE @ ''1'' @ LABEL_POST, ''A'',
                          LABEL_PRE @ ''2'' @ LABEL_POST, ''B'',
                          LABEL_PRE @ ''3'' @ LABEL_POST, ''C''],
               asked = [ASK_PROMPT, ASK_PROMPT],
               invoked = [\<lparr>model = ''gpt-3.5-turbo'',
                 messages = format_messages ''Intro to gRPC: covers unary/streaming RPCs''\<rparr>]\<rparr>)"
proof -
  let ?intro = "''Intro to gRPC: covers unary/streaming RPCs''"
  let ?io0 = "io_init\<lparr>printed := printed io_init @ [COLLECT_BANNER]\<rparr>"
  let ?s2 = "\<lparr>read_articles = [''Intro to gRPC: covers unary/streaming RPCs''],
                   recommendations = [''A'', ''B'', ''C'']\<rparr>"
  have entered: "\<forall>k<length [?intro]. answers w (length (asked ?io0) + k) = Inr ([?intro] ! k) \<and>
      lower ([?intro] ! k) \<noteq> ''done''"
    using assms(1) by (simp add: io_init_def lower_def)
  have sentinel: "answers w (length (asked ?io0) + length [?intro]) = Inr ''done''"
    using assms(2) by (simp add: io_init_def)
  have "lower ''done'' = ''done''"
    by (simp add: lower_def lower_char_def)
  from collect_loop_sentinel [OF entered sentinel this, of ArticleState_init]
  have collect: "collect_history w ArticleState_init io_init =
       Some (Inr \<lparr>read_articles = [''Intro to gRPC: covers unary/streaming RPCs''],
                   recommendations = []\<rparr>,
             \<lparr>printed = [COLLECT_BANNER], asked = [ASK_PROMPT, ASK_PROMPT], invoked = []\<rparr>)"
    by (simp add: collect_history_loop io_init_def ArticleState_init_def)
  have generate: "generate_recommendations w
         \<lparr>read_articles = [''Intro to gRPC: covers unary/streaming RPCs''],
                   recommendations = []\<rparr>
         \<lparr>printed = [COLLECT_BANNER], asked = [ASK_PROMPT, ASK_PROMPT], invoked = []\<rparr> =
       Some (Inr \<lparr>read_articles = [''Intro to gRPC: covers unary/streaming RPCs''],
                   recommendations = [''A'', ''B'', ''C'']\<rparr>,
             \<lparr>printed = [COLLECT_BANNER], asked = [ASK_PROMPT, ASK_PROMPT],
               invoked = [\<lparr>model = ''gpt-3.5-turbo'',
                 messages = format_messages ''Intro to gRPC: covers unary/streaming RPCs''\<rparr>]\<rparr>)"
    by (simp add: generate_recommendations_run assms(3))
  have accepted: "\<forall>x\<in>set (recommendations ?s2). markup_rejects w x = None"
    by (simp add: markup_rejects_plain)
  have "labelled_sections [''A'', ''B'', ''C''] =
      [LABEL_PRE @ ''1'' @ LABEL_POST, ''A'', LABEL_PRE @ ''2'' @ LABEL_POST, ''B'',
       LABEL_PRE @ ''3'' @ LABEL_POST, ''C'']"
    by (simp add: labelled_sections_def label_def str_small)
  with display_results_accepts [OF accepted]
  have display: "display_results w
         \<lparr>read_articles = [''Intro to gRPC: covers unary/streaming RPCs''],
                   recommendations = [''A'', ''B'', ''C'']\<rparr>
         \<lparr>printed = [COLLECT_BANNER], asked = [ASK_PROMPT, ASK_PROMPT],
               invoked = [\<lparr>model = ''gpt-3.5-turbo'',
                 messages = format_messages ''Intro to gRPC: covers unary/streaming RPCs''\<rparr>]\<rparr> =
       Some (Inr \<lparr>read_articles = [''Intro to gRPC: covers unary/streaming RPCs''],
                   recommendations = [''A'', ''B'', ''C'']\<rparr>,
             \<lparr>printed = [COLLECT_BANNER, RESULTS_BANNER,
                          LABEL_PRE @ ''1'' @ LABEL_POST, ''A'',
                          LABEL_PRE @ ''2'' @ LABEL_POST, ''B'',
                          LABEL_PRE @ ''3'' @ LABEL_POST, ''C''],
               asked = [ASK_PROMPT, ASK_PROMPT],
               invoked = [\<lparr>model = ''gpt-3.5-turbo'',
                 messages = format_messages ''Intro to gRPC: covers unary/streaming RPCs''\<rparr>]\<rparr>)"
    by simp
  from collect generate display show ?thesis by blast
qed

text \<open>The scenario as a world.\<close>

theorem end_to_end_scenario_witness:
  "collect_history 
       \<lparr>environ = (\<lambda>name. if name = ''OPENAI_API_KEY'' then Some ''sk-test'' else None),
      answers = (\<lambda>n. if n = 0 then Inr ''Intro to gRPC: covers unary/streaming RPCs''
                       else Inr ''done''),
      compile_raises = None, invoke_error = ''Expected dict'',
      completion = (\<lambda>r. Inr ''A\<newline>\<newline>B\<newline>\<newline>C''),
      markup_error = (\<lambda>t. None)\<rparr>
       ArticleState_init io_init =
       Some (Inr \<lparr>read_articles = [''Intro to gRPC: covers unary/streaming RPCs''],
                   recommendations = []\<rparr>,
             \<lparr>printed = [COLLECT_BANNER], asked = [ASK_PROMPT, ASK_PROMPT], invoked = []\<rparr>) \<and>
     generate_recommendations 
       \<lparr>environ = (\<lambda>name. if name = ''OPENAI_API_KEY'' then Some ''sk-test'' else None),
      answers = (\<lambda>n. if n = 0 then Inr ''Intro to gRPC: covers unary/streaming RPCs''
                       else Inr ''done''),
      compile_raises = None, invoke_error = ''Expected dict'',
      completion = (\<lambda>r. Inr ''A\<newline>\<newline>B\<newline>\<newline>C''),
      markup_error = (\<lambda>t. None)\<rparr>
      
         \<lparr>read_articles = [''Intro to gRPC: covers unary/streaming RPCs''],
                   recommendations = []\<rparr>
         \<lparr>printed = [COLLECT_BANNER], asked = [ASK_PROMPT, ASK_PROMPT], invoked = []\<rparr> =
       Some (Inr \<lparr>read_articles = [''Intro to gRPC: covers unary/streaming RPCs''],
                   recommendations = [''A'', ''B'', ''C'']\<rparr>,
             \<lparr>printed = [COLLECT_BANNER], asked = [ASK_PROMPT, ASK_PROMPT],
               invoked = [\<lparr>model = ''gpt-3.5-turbo'',
                 messages = format_messages ''Intro to gRPC: covers unary/streaming RPCs''\<rparr>]\<rparr>) \<and>
     display_results 
       \<lparr>environ = (\<lambda>name. if name = ''OPENAI_API_KEY'' then Some ''sk-test'' else None),
      answers = (\<lambda>n. if n = 0 then Inr ''Intro to gRPC: covers unary/streaming RPCs''
                       else Inr ''done''),
      compile_raises = None, invoke_error = ''Expected dict'',
      completion = (\<lambda>r. Inr ''A\<newline>\<newline>B\<newline>\<newline>C''),
      markup_error = (\<lambda>t. None)\<rparr>
      
         \<lparr>read_articles = [''Intro to gRPC: covers unary/streaming RPCs''],
                   recommendations = [''A'', ''B'', ''C'']\<rparr>
         \<lparr>printed = [COLLECT_BANNER], asked = [ASK_PROMPT, ASK_PROMPT],
               invoked = [\<lparr>model = ''gpt-3.5-turbo'',
                 messages = format_messages ''Intro to gRPC: covers unary/streaming RPCs''\<rparr>]\<rparr> =
       Some (Inr \<lparr>read_articles = [''Intro to gRPC: covers unary/streaming RPCs''],
                   recommendations = [''A'', ''B'', ''C'']\<rparr>,
             \<lparr>printed = [COLLECT_BANNER, RESULTS_BANNER,
                          LABEL_PRE @ ''1'' @ LABEL_POST, ''A'',
                          LABEL_PRE @ ''2'' @ LABEL_POST, ''B'',
                          LABEL_PRE @ ''3'' @ LABEL_POST, ''C''],
               asked = [ASK_PROMPT, ASK_PROMPT],
               invoked = [\<lparr>model = ''gpt-3.5-turbo'',
                 messages = format_messages ''Intro to gRPC: covers unary/streaming RPCs''\<rparr>]\<rparr>)"
proof -
  let ?w = "\<lparr>environ = (\<lambda>name. if name = ''OPENAI_API_KEY'' then Some ''sk-test'' else None),
      answers = (\<lambda>n. if n = 0 then Inr ''Intro to gRPC: covers unary/streaming RPCs''
                       else Inr ''done''),
      compile_raises = None, invoke_error = ''Expected dict'',
      completion = (\<lambda>r. Inr ''A\<newline>\<newline>B\<newline>\<newline>C''),
      markup_error = (\<lambda>t. None)\<rparr>"
  have "answers ?w 0 = Inr ''Intro to gRPC: covers unary/streaming RPCs''"
    "answers ?w 1 = Inr ''done''"
    "completion ?w \<lparr>model = ''gpt-3.5-turbo'',
           messages = format_messages ''Intro to gRPC: covers unary/streaming RPCs''\<rparr> =
         Inr ''A\<newline>\<newline>B\<newline>\<newline>C''"
    by simp_all
  from end_to_end_scenario [OF this] show ?thesis .
qed

section \<open>The top-level handler\<close>







end
